theory Spec2Isabelle
  imports Main
begin

section \<open>QrScanner: values, regions and the raster surface\<close>

text \<open>
  A shallow embedding of \<^verbatim>\<open>src/qrcode/qr-scanner.js\<close>. Promises are modelled by
  their settled outcome: a rejection is \<open>Inl\<close> of the thrown value, a resolution is
  \<open>Inr\<close> of the result. What the browser decides (events, load results, probes) is
  read from an explicit environment; the static fields of the class and what a call does
  to the outside are an explicit state that every function passes on.

  Limits of the model. The promises of the environment settle, except \<^verbatim>\<open>detect\<close>, which
  may stay pending. The \<^verbatim>\<open>qrEngine\<close> option is an engine, not a promise of one. The DOM
  primitives are taken by their contract: a dimension of the surface stores the number
  written to it, and \<^verbatim>\<open>getContext\<close>, \<^verbatim>\<open>drawImage\<close> and \<^verbatim>\<open>getImageData\<close> do not throw.
  Times are whole milliseconds; of two things due at the same millisecond the timer
  comes first.
\<close>

text \<open>A thrown value: a plain string, or an Error object with its name and message.\<close>

datatype js_error = JsString string | JsError string string

record ScanResult =
  data :: string

definition NO_QR_CODE_FOUND :: string where
  "NO_QR_CODE_FOUND = ''No QR code found''"

text \<open>
  Pixel sizes are non-negative integers, offsets are integers. An absent field of the
  region is \<open>None\<close>.
\<close>

record ScanRegion =
  region_x :: "int option"
  region_y :: "int option"
  region_width :: "nat option"
  region_height :: "nat option"
  downScaledWidth :: "nat option"
  downScaledHeight :: "nat option"

record image =
  image_width :: nat
  image_height :: nat

text \<open>
  The raster surface. Its content is the list of draw calls since it was last cleared;
  writing \<open>width\<close> or \<open>height\<close> clears it, also when the value written is the old one
  (the comment at lines 211-212 of the source).
\<close>

datatype draw_op = DrawImage image int int nat nat nat nat nat nat

record canvas =
  canvas_width :: nat
  canvas_height :: nat
  content :: "draw_op list"

definition set_width :: "nat \<Rightarrow> canvas \<Rightarrow> canvas" where
  "set_width w c = c\<lparr>canvas_width := w, content := []\<rparr>"

definition set_height :: "nat \<Rightarrow> canvas \<Rightarrow> canvas" where
  "set_height h c = c\<lparr>canvas_height := h, content := []\<rparr>"

text \<open>\<^verbatim>\<open>document.createElement('canvas')\<close>: a blank 300 x 150 surface.\<close>

definition createElement_canvas :: canvas where
  "createElement_canvas = \<lparr>canvas_width = 300, canvas_height = 150, content = []\<rparr>"

text \<open>
  \<^verbatim>\<open>scanRegion && scanRegion.f ? scanRegion.f : d\<close>: the field is used when the region
  is there and the field is truthy, so an absent field and the number 0 both give \<open>d\<close>.
\<close>

definition region_field :: "ScanRegion option \<Rightarrow> (ScanRegion \<Rightarrow> nat option) \<Rightarrow> nat \<Rightarrow> nat" where
  "region_field r f d =
     (case r of None \<Rightarrow> d
      | Some reg \<Rightarrow> (case f reg of None \<Rightarrow> d | Some v \<Rightarrow> if v = 0 then d else v))"

definition region_offset :: "ScanRegion option \<Rightarrow> (ScanRegion \<Rightarrow> int option) \<Rightarrow> int" where
  "region_offset r f =
     (case r of None \<Rightarrow> 0
      | Some reg \<Rightarrow> (case f reg of None \<Rightarrow> 0 | Some v \<Rightarrow> if v = 0 then 0 else v))"

definition scanRegionWidth :: "image \<Rightarrow> ScanRegion option \<Rightarrow> nat" where
  "scanRegionWidth img r = region_field r region_width (image_width img)"

definition scanRegionHeight :: "image \<Rightarrow> ScanRegion option \<Rightarrow> nat" where
  "scanRegionHeight img r = region_field r region_height (image_height img)"

definition canvasWidth :: "image \<Rightarrow> ScanRegion option \<Rightarrow> nat" where
  "canvasWidth img r = region_field r downScaledWidth (scanRegionWidth img r)"

definition canvasHeight :: "image \<Rightarrow> ScanRegion option \<Rightarrow> nat" where
  "canvasHeight img r = region_field r downScaledHeight (scanRegionHeight img r)"

text \<open>Lines 204-219: the two guarded dimension writes.\<close>

definition resize_canvas :: "image \<Rightarrow> ScanRegion option \<Rightarrow> canvas \<Rightarrow> canvas" where
  "resize_canvas img r c =
     (let c1 = (if canvas_width c \<noteq> canvasWidth img r then set_width (canvasWidth img r) c else c)
      in if canvas_height c1 \<noteq> canvasHeight img r then set_height (canvasHeight img r) c1 else c1)"

definition drawImage :: "image \<Rightarrow> int \<Rightarrow> int \<Rightarrow> nat \<Rightarrow> nat \<Rightarrow> canvas \<Rightarrow> canvas" where
  "drawImage img sx sy sw sh c =
     c\<lparr>content := content c @ [DrawImage img sx sy sw sh 0 0 (canvas_width c) (canvas_height c)]\<rparr>"

text \<open>
  \<^verbatim>\<open>_drawToCanvas\<close>. The 2-D context is a handle on the surface it belongs to, so the
  model returns the surface alone.
\<close>

definition drawToCanvas :: "image \<Rightarrow> ScanRegion option \<Rightarrow> canvas option \<Rightarrow> bool \<Rightarrow> canvas" where
  "drawToCanvas img r cv disallowResizing =
     (let c0 = (case cv of None \<Rightarrow> createElement_canvas | Some c \<Rightarrow> c);
          c1 = (if \<not> disallowResizing then resize_canvas img r c0 else c0)
      in drawImage img (region_offset r region_x) (region_offset r region_y)
           (scanRegionWidth img r) (scanRegionHeight img r) c1)"

section \<open>Regular expressions and number parsing\<close>

text \<open>\<^verbatim>\<open>/p/.test(s)\<close> for a literal pattern: \<open>p\<close> occurs somewhere in \<open>s\<close>.\<close>

fun contains :: "string \<Rightarrow> string \<Rightarrow> bool" where
  "contains p [] = (p = [])"
| "contains p (c # cs) = (take (length p) (c # cs) = p \<or> contains p cs)"

definition to_lower :: "char \<Rightarrow> char" where
  "to_lower c = (let n = (of_char c :: nat) in if 65 \<le> n \<and> n \<le> 90 then char_of (n + 32) else c)"

text \<open>The \<^verbatim>\<open>i\<close> flag, for a pattern written in lower case.\<close>

definition contains_i :: "string \<Rightarrow> string \<Rightarrow> bool" where
  "contains_i p s = contains p (map to_lower s)"

text \<open>
  Text that is only searched for an ASCII pattern is a \<open>string\<close>. The platform version is
  read by \<^verbatim>\<open>parseInt\<close>, which skips white space that is not all ASCII, so it is kept as
  the list of its UTF-16 code units.
\<close>

type_synonym code_units = "nat list"

text \<open>
  The white space and line terminators of the language: TAB, LF, VT, FF, CR, SP, NBSP,
  U+1680, U+2000 to U+200A, U+2028, U+2029, U+202F, U+205F, U+3000 and U+FEFF.
\<close>

definition is_space :: "nat \<Rightarrow> bool" where
  "is_space c =
     ((9 \<le> c \<and> c \<le> 13) \<or> c = 32 \<or> c = 160 \<or> c = 5760 \<or> (8192 \<le> c \<and> c \<le> 8202)
      \<or> c = 8232 \<or> c = 8233 \<or> c = 8239 \<or> c = 8287 \<or> c = 12288 \<or> c = 65279)"

definition digit_of :: "nat \<Rightarrow> nat option" where
  "digit_of c =
     (if 48 \<le> c \<and> c \<le> 57 then Some (c - 48)
      else if 97 \<le> c \<and> c \<le> 102 then Some (c - 87)
      else if 65 \<le> c \<and> c \<le> 70 then Some (c - 55)
      else None)"

fun parse_digits :: "nat \<Rightarrow> nat option \<Rightarrow> code_units \<Rightarrow> nat option" where
  "parse_digits radix acc [] = acc"
| "parse_digits radix acc (c # cs) =
     (case digit_of c of
        None \<Rightarrow> acc
      | Some d \<Rightarrow>
          if d < radix
          then parse_digits radix (Some ((case acc of None \<Rightarrow> 0 | Some a \<Rightarrow> a) * radix + d)) cs
          else acc)"

text \<open>
  \<^verbatim>\<open>parseInt(s)\<close> without a radix: leading white space, a sign (\<open>-\<close> is 45, \<open>+\<close> is 43),
  the prefix \<^verbatim>\<open>0x\<close> or \<^verbatim>\<open>0X\<close> (48, then 120 or 88), then the longest run of digits.
  \<open>None\<close> is NaN. The result is the exact integer; the number the language makes of it
  is that integer rounded, which is at least 13 exactly when the integer is.
\<close>

definition parseInt :: "code_units \<Rightarrow> int option" where
  "parseInt s =
     (let s1 = dropWhile is_space s;
          neg = (s1 \<noteq> [] \<and> hd s1 = 45);
          s2 = (if s1 \<noteq> [] \<and> (hd s1 = 45 \<or> hd s1 = 43) then tl s1 else s1);
          hex = (take 2 s2 = [48, 120] \<or> take 2 s2 = [48, 88]);
          v = (if hex then parse_digits 16 None (drop 2 s2) else parse_digits 10 None s2)
      in case v of None \<Rightarrow> None | Some n \<Rightarrow> Some (if neg then - int n else int n))"

text \<open>\<^verbatim>\<open>s || d\<close> on an optional string: absent and empty both give \<open>d\<close>.\<close>

definition or_default :: "'a list option \<Rightarrow> 'a list \<Rightarrow> 'a list" where
  "or_default s d = (case s of None \<Rightarrow> d | Some v \<Rightarrow> if v = [] then d else v)"

section \<open>Engines, options, process state and environment\<close>

text \<open>The engine handle; the number is the identity of the object.\<close>

datatype engine = Worker nat | BarcodeDetector nat

record options =
  scanRegion :: "ScanRegion option"
  qrEngine :: "engine option"
  canvas_opt :: "canvas option"
  disallowCanvasResizing :: bool
  alsoTryWithoutScanRegion :: bool
  timeout :: "nat option"

datatype payload = NoData | StrData string | ImageData canvas

record message =
  msg_id :: nat
  msg_type :: string
  msg_data :: payload

text \<open>
  What a run does to the outside, in order: the calls of \<^verbatim>\<open>scanImage\<close> (tagged with the
  call site), the engines built, the messages posted to a worker, the timers armed.
\<close>

datatype call_site = Caller | CapabilityRetry | RegionlessRetry

datatype event =
    Invoke call_site options
  | Created engine
  | Posted nat message
  | TimerArmed nat

text \<open>
  The static fields of the class, the count of \<^verbatim>\<open>scanImage\<close> calls so far (it selects
  the environment of a call), the next fresh engine identity, and the trace.
\<close>

record state =
  disableBarcodeDetector :: bool
  workerMessageId :: nat
  calls :: nat
  nextEngine :: nat
  trace :: "event list"

text \<open>
  The answer of the high-entropy query: a rejection, or the architecture and the platform
  version, each of which may be missing.
\<close>

datatype high_entropy = HevRejects | HevResolves "string option" "code_units option"

record userAgentData =
  brands :: "string list"
  platform :: string
  getHighEntropyValues :: high_entropy

record window =
  barcodeDetectorInWindow :: bool
  hasGetSupportedFormats :: bool
  getSupportedFormats :: "js_error + string list"
  navigator_userAgentData :: "userAgentData option"
  workerModule :: "js_error option"

datatype worker_event = MessageEvent int "string option" | ErrorEvent "string option"

datatype detect_outcome =
    DetectResolves nat "string list"
  | DetectRejects nat js_error
  | DetectNever

datatype load_event = LoadEvent | LoadErrorEvent | LoadOtherEvent

text \<open>
  The environment of one call of \<^verbatim>\<open>scanImage\<close>: the window, the event that ends the
  image load, the times (ms) at which engine and image settle, the events the worker
  dispatches (time since the request, in dispatch order), and what \<^verbatim>\<open>detect\<close> does
  (time since the call, then the raw values found or the error thrown).
\<close>

record frame =
  win :: window
  loadEvent :: load_event
  engineMs :: nat
  imageMs :: nat
  channel :: "(nat \<times> worker_event) list"
  detect :: detect_outcome

type_synonym world = "nat \<Rightarrow> frame"

datatype image_input =
    ImageElement bool image
  | Drawable image
  | BlobOrFile image
  | UrlOrString image
  | UnsupportedInput

section \<open>Input normalisation and engine selection\<close>

text \<open>
  \<^verbatim>\<open>_awaitImageLoad\<close>: nothing to wait for when the image is complete; otherwise the
  listener rejects for an event that is an \<^verbatim>\<open>ErrorEvent\<close> and resolves for any other.
\<close>

definition awaitImageLoad :: "bool \<Rightarrow> load_event \<Rightarrow> js_error + unit" where
  "awaitImageLoad loaded ev =
     (if loaded then Inr ()
      else (case ev of LoadErrorEvent \<Rightarrow> Inl (JsString ''Image load error'') | _ \<Rightarrow> Inr ()))"

definition loadImage :: "image_input \<Rightarrow> load_event \<Rightarrow> js_error + image" where
  "loadImage inp ev =
     (case inp of
        ImageElement loaded img \<Rightarrow>
          (case awaitImageLoad loaded ev of Inl e \<Rightarrow> Inl e | Inr _ \<Rightarrow> Inr img)
      | Drawable img \<Rightarrow> Inr img
      | BlobOrFile img \<Rightarrow>
          (case awaitImageLoad False ev of Inl e \<Rightarrow> Inl e | Inr _ \<Rightarrow> Inr img)
      | UrlOrString img \<Rightarrow>
          (case awaitImageLoad False ev of Inl e \<Rightarrow> Inl e | Inr _ \<Rightarrow> Inr img)
      | UnsupportedInput \<Rightarrow> Inl (JsString ''Unsupported image type.''))"

text \<open>\<^verbatim>\<open>createWorker\<close>: the dynamic import may reject; otherwise a new worker.\<close>

definition createWorker :: "window \<Rightarrow> state \<Rightarrow> (js_error + engine) \<times> state" where
  "createWorker wn s =
     (case workerModule wn of
        Some e \<Rightarrow> (Inl e, s)
      | None \<Rightarrow>
          (Inr (Worker (nextEngine s)),
           s\<lparr>nextEngine := Suc (nextEngine s),
             trace := trace s @ [Created (Worker (nextEngine s))]\<rparr>))"

text \<open>Lines 171-174. A rejecting \<^verbatim>\<open>getSupportedFormats\<close> rejects the selection.\<close>

definition useBarcodeDetector :: "window \<Rightarrow> state \<Rightarrow> js_error + bool" where
  "useBarcodeDetector wn s =
     (if disableBarcodeDetector s then Inr False
      else if \<not> barcodeDetectorInWindow wn then Inr False
      else if \<not> hasGetSupportedFormats wn then Inr False
      else (case getSupportedFormats wn of
              Inl e \<Rightarrow> Inl e
            | Inr formats \<Rightarrow> Inr (List.member formats ''qr_code'')))"

text \<open>
  Lines 183-185: the answer of the high-entropy query, \<^verbatim>\<open>.catch(() => true)\<close>. The
  default \<^verbatim>\<open>'13'\<close> of the version is the code units 49, 51.
\<close>

definition armVentura :: "high_entropy \<Rightarrow> bool" where
  "armVentura h =
     (case h of
        HevRejects \<Rightarrow> True
      | HevResolves architecture platformVersion \<Rightarrow>
          contains_i ''arm'' (or_default architecture ''arm'')
          \<and> (case parseInt (or_default platformVersion [49, 51]) of
                None \<Rightarrow> False
              | Some v \<Rightarrow> 13 \<le> v))"

text \<open>Lines 178-185. The query is only made for a Chromium brand on macOS.\<close>

definition isChromiumOnMacWithArmVentura :: "window \<Rightarrow> bool" where
  "isChromiumOnMacWithArmVentura wn =
     (case navigator_userAgentData wn of
        None \<Rightarrow> False
      | Some u \<Rightarrow>
          if \<not> list_ex (contains_i ''chromium'') (brands u) then False
          else if contains_i ''macos'' (platform u) \<or> contains_i ''mac os'' (platform u)
          then armVentura (getHighEntropyValues u)
          else False)"

definition createQrEngine :: "window \<Rightarrow> state \<Rightarrow> (js_error + engine) \<times> state" where
  "createQrEngine wn s =
     (case useBarcodeDetector wn s of
        Inl e \<Rightarrow> (Inl e, s)
      | Inr use \<Rightarrow>
          if \<not> use then createWorker wn s
          else if isChromiumOnMacWithArmVentura wn then createWorker wn s
          else (Inr (BarcodeDetector (nextEngine s)),
                s\<lparr>nextEngine := Suc (nextEngine s),
                  trace := trace s @ [Created (BarcodeDetector (nextEngine s))]\<rparr>))"

section \<open>The worker channel\<close>

text \<open>
  \<^verbatim>\<open>_workerMessageId++\<close> on a JavaScript number, a double that holds an integer. Below
  \<open>2^53\<close> every integer is a double and the sum is exact. From \<open>2^53\<close> to \<open>2^54\<close>
  the doubles are the even integers and \<open>n + 1\<close> lies half way between two of them: it is
  rounded to the one with the even significand, which is \<open>n\<close> itself when \<open>n div 2\<close> is
  even. From \<open>2^54\<close> on, \<open>n + 1\<close> is rounded back to \<open>n\<close>. A counter that starts at 0
  therefore stops at \<open>2^53\<close>.
\<close>

definition increment :: "nat \<Rightarrow> nat" where
  "increment n =
     (if n < 2 ^ 53 then Suc n
      else if n < 2 ^ 54 \<and> odd (n div 2) then n + 2
      else n)"

text \<open>
  \<^verbatim>\<open>_postWorkerMessageSync\<close>. The cleanup passes whatever the variable \<^verbatim>\<open>qrEngine\<close>
  holds, which is \<^verbatim>\<open>undefined\<close> (\<open>None\<close>) when no engine was assigned; anything that is
  not a worker gets no message and the answer -1.
\<close>

definition postWorkerMessageSync :: "engine option \<Rightarrow> string \<Rightarrow> payload \<Rightarrow> state \<Rightarrow> int \<times> state" where
  "postWorkerMessageSync e ty d s =
     (case e of
        Some (Worker k) \<Rightarrow>
          (int (workerMessageId s),
           s\<lparr>workerMessageId := increment (workerMessageId s),
             trace := trace s @ [Posted k \<lparr>msg_id = workerMessageId s, msg_type = ty, msg_data = d\<rparr>]\<rparr>)
      | _ \<Rightarrow> (- 1, s))"

text \<open>\<^verbatim>\<open>_postWorkerMessage\<close> awaits the engine and posts; its answer is not used.\<close>

definition postWorkerMessage :: "engine option \<Rightarrow> string \<Rightarrow> payload \<Rightarrow> state \<Rightarrow> state" where
  "postWorkerMessage e ty d s = snd (postWorkerMessageSync e ty d s)"

text \<open>\<^verbatim>\<open>options['timeout'] || 10000\<close>.\<close>

definition deadline :: "options \<Rightarrow> nat" where
  "deadline opts = (case timeout opts of None \<Rightarrow> 10000 | Some t \<Rightarrow> if t = 0 then 10000 else t)"

text \<open>
  The pending request of lines 87-123: the id waited for, whether the two listeners are
  attached, the timer, and the outcome once the promise is settled. Settling a settled
  promise does nothing.
\<close>

record pending =
  expectedResponseId :: int
  listening :: bool
  timer :: "nat option"
  settled :: "(js_error + ScanResult) option"

definition settle :: "js_error + ScanResult \<Rightarrow> pending \<Rightarrow> pending" where
  "settle r p = (case settled p of None \<Rightarrow> p\<lparr>settled := Some r\<rparr> | Some _ \<Rightarrow> p)"

definition teardown :: "pending \<Rightarrow> pending" where
  "teardown p = p\<lparr>listening := False, timer := None\<rparr>"

definition onMessage :: "int \<Rightarrow> string option \<Rightarrow> pending \<Rightarrow> pending" where
  "onMessage i d p =
     (if i \<noteq> expectedResponseId p then p
      else (case d of
              Some v \<Rightarrow> settle (Inr \<lparr>data = v\<rparr>) (teardown p)
            | None \<Rightarrow> settle (Inl (JsString NO_QR_CODE_FOUND)) (teardown p)))"

text \<open>
  The argument of \<^verbatim>\<open>onError\<close>: a string, or an event with its \<^verbatim>\<open>message\<close> property
  (\<open>None\<close> for an event that has none). An event is truthy; a string is falsy when empty.
\<close>

datatype error_arg = ErrString string | ErrEvent "string option"

definition errorMessage :: "error_arg \<Rightarrow> string" where
  "errorMessage e =
     (case e of
        ErrString str \<Rightarrow> if str = [] then ''Unknown Error'' else str
      | ErrEvent m \<Rightarrow>
          (case m of
             None \<Rightarrow> ''[object Event]''
           | Some v \<Rightarrow> if v = [] then ''[object ErrorEvent]'' else v))"

definition onError :: "error_arg \<Rightarrow> pending \<Rightarrow> pending" where
  "onError e p = settle (Inl (JsString (''Scanner error: '' @ errorMessage e))) (teardown p)"

text \<open>An event reaches a handler only while the listeners are attached.\<close>

definition dispatch :: "worker_event \<Rightarrow> pending \<Rightarrow> pending" where
  "dispatch ev p =
     (if \<not> listening p then p
      else (case ev of
              MessageEvent i d \<Rightarrow> onMessage i d p
            | ErrorEvent m \<Rightarrow> onError (ErrEvent m) p))"

definition fire_timer :: "pending \<Rightarrow> pending" where
  "fire_timer p = (case timer p of None \<Rightarrow> p | Some _ \<Rightarrow> onError (ErrString ''timeout'') p)"

text \<open>
  The event loop for one request: events stamped before the deadline are dispatched in
  order until the promise settles; then, or when none is left, the timer fires if it is
  still armed. The result is the request and the time at which it settled.
\<close>

fun run_channel :: "nat \<Rightarrow> (nat \<times> worker_event) list \<Rightarrow> pending \<Rightarrow> pending \<times> nat" where
  "run_channel T [] p = (fire_timer p, T)"
| "run_channel T ((t, ev) # evs) p =
     (if T \<le> t then (fire_timer p, T)
      else (let p' = dispatch ev p
            in if settled p' \<noteq> None then (p', t) else run_channel T evs p'))"

section \<open>The scan orchestrator\<close>

type_synonym outcome = "js_error + ScanResult"

text \<open>
  \<^verbatim>\<open>Promise.all\<close> of the engine and the image, each with the time at which it settles:
  both values once both are there, otherwise the rejection that comes first.
\<close>

definition promise_all ::
  "js_error + engine \<Rightarrow> nat \<Rightarrow> js_error + image \<Rightarrow> nat \<Rightarrow> (js_error + engine \<times> image) \<times> nat" where
  "promise_all e te i ti =
     (case e of
        Inr en \<Rightarrow> (case i of Inr im \<Rightarrow> (Inr (en, im), max te ti) | Inl y \<Rightarrow> (Inl y, ti))
      | Inl x \<Rightarrow> (case i of Inr im \<Rightarrow> (Inl x, te)
                 | Inl y \<Rightarrow> if te \<le> ti then (Inl x, te) else (Inl y, ti)))"

text \<open>Lines 73-76. An engine passed in is a value, there at once.\<close>

definition acquire ::
  "frame \<Rightarrow> image_input \<Rightarrow> options \<Rightarrow> state \<Rightarrow> ((js_error + engine \<times> image) \<times> nat) \<times> state" where
  "acquire f inp opts s =
     (case qrEngine opts of
        Some en \<Rightarrow> (promise_all (Inr en) 0 (loadImage inp (loadEvent f)) (imageMs f), s)
      | None \<Rightarrow>
          (case createQrEngine (win f) s of
             (e, s') \<Rightarrow> (promise_all e (engineMs f) (loadImage inp (loadEvent f)) (imageMs f), s')))"

text \<open>The request as the executor leaves it: listeners attached, timer armed, unsettled.\<close>

definition new_request :: "int \<Rightarrow> nat \<Rightarrow> pending" where
  "new_request i T = \<lparr>expectedResponseId = i, listening = True, timer = Some T, settled = None\<rparr>"

text \<open>
  Lines 80-123, the worker path. No event can arrive between the registration of the
  listeners and the assignment of \<^verbatim>\<open>expectedResponseId\<close>, so the request starts with the
  id of the \<^verbatim>\<open>decode\<close> message.
\<close>

definition decodeWorker ::
  "frame \<Rightarrow> options \<Rightarrow> nat \<Rightarrow> canvas \<Rightarrow> state \<Rightarrow> outcome option \<times> nat \<times> state" where
  "decodeWorker f opts k cv s =
     (let s1 = (if qrEngine opts = None
                then snd (postWorkerMessageSync (Some (Worker k)) ''inversionMode'' (StrData ''both'') s)
                else s);
          s2 = s1\<lparr>trace := trace s1 @ [TimerArmed (deadline opts)]\<rparr>
      in case postWorkerMessageSync (Some (Worker k)) ''decode'' (ImageData cv) s2 of
           (i, s3) \<Rightarrow>
             (case run_channel (deadline opts) (channel f) (new_request i (deadline opts)) of
                (p, t) \<Rightarrow> (settled p, t, s3)))"

text \<open>
  \<^verbatim>\<open>Promise.race\<close> of the timer and a branch that settles with \<open>r\<close> at time \<open>t\<close>, or
  never (\<open>None\<close>).
\<close>

definition race :: "nat \<Rightarrow> (outcome \<times> nat) option \<Rightarrow> outcome \<times> nat" where
  "race T b =
     (case b of
        None \<Rightarrow> (Inl (JsString ''Scanner error: timeout''), T)
      | Some (r, t) \<Rightarrow> if t < T then (r, t) else (Inl (JsString ''Scanner error: timeout''), T))"

text \<open>
  \<^verbatim>\<open>(e as Error).message || e\<close>, as a string: the message when there is one, otherwise
  the thrown value itself, which for an Error without message prints as its name.
\<close>

definition thrown_message :: "js_error \<Rightarrow> string" where
  "thrown_message e = (case e of JsString str \<Rightarrow> str | JsError n m \<Rightarrow> if m = [] then n else m)"

text \<open>The test of line 137. The pattern has no \<^verbatim>\<open>i\<close> flag.\<close>

definition capabilityError :: "string \<Rightarrow> bool" where
  "capabilityError m = (contains ''not implemented'' m \<or> contains ''service unavailable'' m)"

text \<open>The object literals of lines 140-145 and 157.\<close>

definition capabilityRetryOptions :: "options \<Rightarrow> canvas \<Rightarrow> options" where
  "capabilityRetryOptions opts cv =
     \<lparr>scanRegion = scanRegion opts, qrEngine = None, canvas_opt = Some cv,
      disallowCanvasResizing = disallowCanvasResizing opts,
      alsoTryWithoutScanRegion = alsoTryWithoutScanRegion opts, timeout = None\<rparr>"

definition regionlessRetryOptions :: "options \<Rightarrow> engine option \<Rightarrow> canvas option \<Rightarrow> options" where
  "regionlessRetryOptions opts e cv =
     \<lparr>scanRegion = None, qrEngine = e, canvas_opt = cv,
      disallowCanvasResizing = disallowCanvasResizing opts,
      alsoTryWithoutScanRegion = False, timeout = None\<rparr>"

text \<open>
  Lines 125-150, the detector path; \<open>retry\<close> is the recursive call of \<^verbatim>\<open>scanImage\<close>.
  When \<^verbatim>\<open>detect\<close> settles only at or after the deadline the timer has decided the race:
  the call goes on with the timeout, and what the late branch does (the flag, a retry)
  comes after that and is no part of what the call returns. When \<^verbatim>\<open>detect\<close> rejects in
  time the flag is set and the retry started before the deadline; should the retry itself
  outlast the timer, the race is lost to the timeout, and the state keeps all the retry
  does, in the order of the model, which does not interleave it with the caller.
\<close>

definition decodeDetector ::
  "(options \<Rightarrow> state \<Rightarrow> (outcome \<times> nat \<times> state) option) \<Rightarrow> frame \<Rightarrow> options \<Rightarrow> canvas \<Rightarrow> state
     \<Rightarrow> ((outcome \<times> nat) \<times> state) option" where
  "decodeDetector retry f opts cv s =
     (let s1 = s\<lparr>trace := trace s @ [TimerArmed (deadline opts)]\<rparr>
      in case detect f of
           DetectNever \<Rightarrow> Some (race (deadline opts) None, s1)
         | DetectResolves td found \<Rightarrow>
             Some (race (deadline opts)
                     (Some (Inr \<lparr>data = (case found of [] \<Rightarrow> NO_QR_CODE_FOUND | v # _ \<Rightarrow> v)\<rparr>, td)), s1)
         | DetectRejects td e \<Rightarrow>
             if deadline opts \<le> td then Some (race (deadline opts) None, s1)
             else if capabilityError (thrown_message e)
             then (case retry (capabilityRetryOptions opts cv) (s1\<lparr>disableBarcodeDetector := True\<rparr>) of
                     None \<Rightarrow> None
                   | Some (r, t, s2) \<Rightarrow> Some (race (deadline opts) (Some (r, td + t)), s2))
             else Some (race (deadline opts)
                          (Some (Inl (JsString (''Scanner error: '' @ thrown_message e)), td)), s1))"

text \<open>
  The \<^verbatim>\<open>try\<close> block. Besides outcome, time and state it gives the variables
  \<^verbatim>\<open>qrEngine\<close> and \<^verbatim>\<open>canvas\<close> as \<^verbatim>\<open>catch\<close> and \<^verbatim>\<open>finally\<close> find them: still the
  caller's options when \<^verbatim>\<open>Promise.all\<close> rejected, the acquired engine and the drawn
  surface afterwards.
\<close>

definition tryBody ::
  "(options \<Rightarrow> state \<Rightarrow> (outcome \<times> nat \<times> state) option) \<Rightarrow> frame \<Rightarrow> image_input \<Rightarrow> options \<Rightarrow> state
     \<Rightarrow> (outcome \<times> nat \<times> state \<times> engine option \<times> canvas option) option" where
  "tryBody retry f inp opts s =
     (case acquire f inp opts s of
        ((Inl e, t0), s1) \<Rightarrow> Some (Inl e, t0, s1, qrEngine opts, canvas_opt opts)
      | ((Inr (eng, img), t0), s1) \<Rightarrow>
          (let cv = drawToCanvas img (scanRegion opts) (canvas_opt opts) (disallowCanvasResizing opts)
           in case eng of
                Worker k \<Rightarrow>
                  (case decodeWorker f opts k cv s1 of
                     (None, t, s2) \<Rightarrow> None
                   | (Some r, t, s2) \<Rightarrow> Some (r, t0 + t, s2, Some eng, Some cv))
              | BarcodeDetector k \<Rightarrow>
                  (case decodeDetector retry f opts cv s1 of
                     None \<Rightarrow> None
                   | Some ((r, t), s2) \<Rightarrow> Some (r, t0 + t, s2, Some eng, Some cv))))"

text \<open>Lines 159-163.\<close>

definition cleanup :: "options \<Rightarrow> engine option \<Rightarrow> state \<Rightarrow> state" where
  "cleanup opts e s = (if qrEngine opts = None then postWorkerMessage e ''close'' NoData s else s)"

text \<open>
  \<^verbatim>\<open>scanImage\<close>. The first argument bounds the depth of the recursion; \<open>None\<close> is a
  call that does not return. Each call is counted and logged on entry, and reads the
  environment of its own number.
\<close>

definition enter :: "call_site \<Rightarrow> options \<Rightarrow> state \<Rightarrow> state" where
  "enter site opts s = s\<lparr>calls := Suc (calls s), trace := trace s @ [Invoke site opts]\<rparr>"

primrec scanImage ::
  "nat \<Rightarrow> world \<Rightarrow> call_site \<Rightarrow> image_input \<Rightarrow> options \<Rightarrow> state \<Rightarrow> (outcome \<times> nat \<times> state) option" where
  "scanImage 0 w site inp opts s = None"
| "scanImage (Suc n) w site inp opts s =
     (case tryBody (scanImage n w CapabilityRetry inp) (w (calls s)) inp opts (enter site opts s) of
        None \<Rightarrow> None
      | Some (r, t, s1, e, cv) \<Rightarrow>
          (case r of
             Inr res \<Rightarrow> Some (Inr res, t, cleanup opts e s1)
           | Inl err \<Rightarrow>
               if scanRegion opts = None then Some (Inl err, t, cleanup opts e s1)
               else if \<not> alsoTryWithoutScanRegion opts then Some (Inl err, t, cleanup opts e s1)
               else (case scanImage n w RegionlessRetry inp (regionlessRetryOptions opts e cv) s1 of
                       None \<Rightarrow> None
                     | Some (r', t', s2) \<Rightarrow> Some (r', t + t', cleanup opts e s2))))"

definition initial_state :: state where
  "initial_state =
     \<lparr>disableBarcodeDetector = False, workerMessageId = 0, calls = 0, nextEngine = 0, trace = []\<rparr>"

section \<open>Predicates used in the statements\<close>

text \<open>
  Events that arrive before the deadline \<open>T\<close> and leave the request for id \<open>i\<close>
  pending: messages that carry another id.
\<close>

definition other_id :: "int \<Rightarrow> nat \<Rightarrow> nat \<times> worker_event \<Rightarrow> bool" where
  "other_id i T tev =
     (case tev of (t, ev) \<Rightarrow>
        t < T \<and> (case ev of MessageEvent j d \<Rightarrow> j \<noteq> i | ErrorEvent m \<Rightarrow> False))"

text \<open>
  The id the \<^verbatim>\<open>decode\<close> message of a call gets, from the counter at the time the
  engine is there: an engine the call made itself is first sent \<^verbatim>\<open>inversionMode\<close>.
\<close>

definition decode_id :: "options \<Rightarrow> state \<Rightarrow> int" where
  "decode_id opts s =
     int (if qrEngine opts = None then increment (workerMessageId s) else workerMessageId s)"

text \<open>The native detector gives no result before the deadline \<open>T\<close>.\<close>

definition detect_late :: "nat \<Rightarrow> detect_outcome \<Rightarrow> bool" where
  "detect_late T d =
     (case d of DetectNever \<Rightarrow> True | DetectResolves td found \<Rightarrow> T \<le> td | DetectRejects td e \<Rightarrow> T \<le> td)"

text \<open>The ids of the messages posted so far, in order.\<close>

fun posted_ids :: "event list \<Rightarrow> nat list" where
  "posted_ids [] = []"
| "posted_ids (Posted k m # es) = msg_id m # posted_ids es"
| "posted_ids (e # es) = posted_ids es"

text \<open>
  A call that cannot reach the native detector: it was given a worker, or it selects
  its engine while the flag is set.
\<close>

definition no_detector :: "options \<Rightarrow> state \<Rightarrow> bool" where
  "no_detector opts s =
     (case qrEngine opts of
        Some (Worker k) \<Rightarrow> True
      | Some (BarcodeDetector k) \<Rightarrow> False
      | None \<Rightarrow> disableBarcodeDetector s)"

text \<open>The caller asked for the region-less fallback, and there is a region to drop.\<close>

definition fallback :: "options \<Rightarrow> bool" where
  "fallback opts = (scanRegion opts \<noteq> None \<and> alsoTryWithoutScanRegion opts)"

text \<open>
  The \<^verbatim>\<open>try\<close> block of a call rejects with \<open>err\<close>, and the call does what lines
  153-158 make of it: with a region and the fallback flag it settles as the region-less
  retry does, otherwise it rejects with \<open>err\<close>. The first argument bounds the depth of
  the calls below.
\<close>

definition rejects_or_falls_back ::
  "nat \<Rightarrow> world \<Rightarrow> call_site \<Rightarrow> image_input \<Rightarrow> options \<Rightarrow> state \<Rightarrow> js_error \<Rightarrow> bool" where
  "rejects_or_falls_back n w site inp opts s err =
     (case tryBody (scanImage n w CapabilityRetry inp) (w (calls s)) inp opts (enter site opts s) of
        None \<Rightarrow> False
      | Some (r, t1, s2, e, cv) \<Rightarrow>
          r = Inl err
          \<and> scanImage (Suc n) w site inp opts s
              = (if fallback opts
                 then (case scanImage n w RegionlessRetry inp (regionlessRetryOptions opts e cv) s2 of
                         None \<Rightarrow> None
                       | Some (r', t', s3) \<Rightarrow> Some (r', t1 + t', cleanup opts e s3))
                 else Some (Inl err, t1, cleanup opts e s2)))"

text \<open>An event of a trace that is not the call of a retry with a timeout option.\<close>

definition retry_without_timeout :: "event \<Rightarrow> bool" where
  "retry_without_timeout ev =
     (case ev of
        Invoke c opts \<Rightarrow> c \<noteq> Caller \<and> timeout opts = None \<and> deadline opts = 10000
      | _ \<Rightarrow> True)"

text \<open>An event of a trace that is not the arming of a timer other than the default one.\<close>

definition default_timer :: "event \<Rightarrow> bool" where
  "default_timer ev = (case ev of TimerArmed T \<Rightarrow> T = 10000 | _ \<Rightarrow> True)"

text \<open>The messages posted so far carry the ids 0, 1, 2, ... up to the counter, in this order.\<close>

definition ids_in_order :: "state \<Rightarrow> bool" where
  "ids_in_order s = (posted_ids (trace s) = [0..<workerMessageId s])"

text \<open>The options of the retries in a trace, by call site.\<close>

fun invoked :: "call_site \<Rightarrow> event list \<Rightarrow> options list" where
  "invoked c [] = []"
| "invoked c (Invoke c' opts # es) = (if c' = c then opts # invoked c es else invoked c es)"
| "invoked c (e # es) = invoked c es"

text \<open>The \<^verbatim>\<open>close\<close> messages posted to worker \<open>k\<close>.\<close>

fun closes :: "nat \<Rightarrow> event list \<Rightarrow> nat" where
  "closes k [] = 0"
| "closes k (Posted k' m # es) =
     (if k' = k \<and> msg_type m = ''close'' then Suc (closes k es) else closes k es)"
| "closes k (e # es) = closes k es"

section \<open>Example environments\<close>

text \<open>A window without the native detector, and one that has it and no user agent data.\<close>

definition plain_window :: window where
  "plain_window =
     \<lparr>barcodeDetectorInWindow = False, hasGetSupportedFormats = False,
      getSupportedFormats = Inr [], navigator_userAgentData = None, workerModule = None\<rparr>"

definition native_window :: window where
  "native_window =
     \<lparr>barcodeDetectorInWindow = True, hasGetSupportedFormats = True,
      getSupportedFormats = Inr [''qr_code''], navigator_userAgentData = None, workerModule = None\<rparr>"

text \<open>A Chromium browser on macOS whose high-entropy query rejects.\<close>

definition chromium_mac_window :: window where
  "chromium_mac_window =
     \<lparr>barcodeDetectorInWindow = True, hasGetSupportedFormats = True,
      getSupportedFormats = Inr [''qr_code''],
      navigator_userAgentData = Some \<lparr>brands = [''Not A(Brand'', ''Chromium''], platform = ''macOS'',
        getHighEntropyValues = HevRejects\<rparr>,
      workerModule = None\<rparr>"

definition worker_frame :: "(nat \<times> worker_event) list \<Rightarrow> frame" where
  "worker_frame evs =
     \<lparr>win = plain_window, loadEvent = LoadEvent, engineMs = 5, imageMs = 3,
      channel = evs, detect = DetectNever\<rparr>"

definition native_frame :: "detect_outcome \<Rightarrow> (nat \<times> worker_event) list \<Rightarrow> frame" where
  "native_frame d evs =
     \<lparr>win = native_window, loadEvent = LoadEvent, engineMs = 5, imageMs = 3,
      channel = evs, detect = d\<rparr>"

text \<open>Worlds: the same environment for every call, or one for the first call and one after.\<close>

definition always :: "frame \<Rightarrow> world" where
  "always f = (\<lambda>k. f)"

definition first_then :: "frame \<Rightarrow> frame \<Rightarrow> world" where
  "first_then f g = (\<lambda>k. if k = 0 then f else g)"

definition example_image :: image where
  "example_image = \<lparr>image_width = 10, image_height = 20\<rparr>"

definition example_region :: ScanRegion where
  "example_region =
     \<lparr>region_x = Some 1, region_y = Some 2, region_width = Some 5, region_height = Some 6,
      downScaledWidth = None, downScaledHeight = None\<rparr>"

text \<open>The options object with every field absent.\<close>

definition no_options :: options where
  "no_options =
     \<lparr>scanRegion = None, qrEngine = None, canvas_opt = None, disallowCanvasResizing = False,
      alsoTryWithoutScanRegion = False, timeout = None\<rparr>"

section \<open>The canvas projector\<close>

lemma region_field_given: "f reg = Some v \<Longrightarrow> v \<noteq> 0 \<Longrightarrow> region_field (Some reg) f d = v"
  by (simp add: region_field_def)

lemma region_field_absent: "f reg = None \<or> f reg = Some 0 \<Longrightarrow> region_field (Some reg) f d = d"
  by (auto simp: region_field_def)

text \<open>
  Claim C8, as amended. With resizing allowed the surface ends with the width and
  height chosen by \<open>region_field\<close>: the downscale target when it is given and not 0,
  otherwise the width or height of the region when given and not 0, otherwise that of
  the image. A surface that already has these dimensions is not written to: it is
  left as it is by the resize step, and after the projection its content is the old
  content followed by the one new draw call, so nothing was cleared.
\<close>

theorem drawToCanvas_dimensions:
  assumes "\<not> disallow"
  shows "canvas_width (drawToCanvas img r cv disallow)
           = region_field r downScaledWidth (region_field r region_width (image_width img))
       \<and> canvas_height (drawToCanvas img r cv disallow)
           = region_field r downScaledHeight (region_field r region_height (image_height img))
       \<and> (cv = Some c \<and> canvas_width c = canvasWidth img r \<and> canvas_height c = canvasHeight img r
            \<longrightarrow> resize_canvas img r c = c
              \<and> content (drawToCanvas img r cv disallow)
                  = content c @ [DrawImage img (region_offset r region_x) (region_offset r region_y)
                       (scanRegionWidth img r) (scanRegionHeight img r) 0 0
                       (canvas_width c) (canvas_height c)])"
  using assms
  by (simp add: drawToCanvas_def resize_canvas_def drawImage_def set_width_def set_height_def
      canvasWidth_def canvasHeight_def scanRegionWidth_def scanRegionHeight_def Let_def
      split: option.splits)

theorem drawToCanvas_dimensions_witness:
  "canvas_width (drawToCanvas \<lparr>image_width = 10, image_height = 20\<rparr> None
      (Some \<lparr>canvas_width = 10, canvas_height = 20,
         content = [DrawImage \<lparr>image_width = 1, image_height = 1\<rparr> 0 0 1 1 0 0 10 20]\<rparr>) False) = 10
   \<and> content (drawToCanvas \<lparr>image_width = 10, image_height = 20\<rparr> None
      (Some \<lparr>canvas_width = 10, canvas_height = 20,
         content = [DrawImage \<lparr>image_width = 1, image_height = 1\<rparr> 0 0 1 1 0 0 10 20]\<rparr>) False)
     = [DrawImage \<lparr>image_width = 1, image_height = 1\<rparr> 0 0 1 1 0 0 10 20,
        DrawImage \<lparr>image_width = 10, image_height = 20\<rparr> 0 0 10 20 0 0 10 20]"
  using drawToCanvas_dimensions [of False "\<lparr>image_width = 10, image_height = 20\<rparr>" None
      "Some \<lparr>canvas_width = 10, canvas_height = 20,
         content = [DrawImage \<lparr>image_width = 1, image_height = 1\<rparr> 0 0 1 1 0 0 10 20]\<rparr>"
      "\<lparr>canvas_width = 10, canvas_height = 20,
         content = [DrawImage \<lparr>image_width = 1, image_height = 1\<rparr> 0 0 1 1 0 0 10 20]\<rparr>"]
  by (simp add: region_field_def region_offset_def canvasWidth_def canvasHeight_def
      scanRegionWidth_def scanRegionHeight_def)

text \<open>
  Claim C8 as stated fails where the downscale target is given as 0: the region below
  gives \<^verbatim>\<open>downScaledWidth: 0\<close> and \<^verbatim>\<open>width: 5\<close>, and the surface gets the width 5.
\<close>

theorem downscale_zero_counterexample:
  "downScaledWidth \<lparr>region_x = None, region_y = None, region_width = Some 5, region_height = None,
       downScaledWidth = Some 0, downScaledHeight = None\<rparr> = Some 0
   \<and> canvas_width (drawToCanvas \<lparr>image_width = 10, image_height = 20\<rparr>
       (Some \<lparr>region_x = None, region_y = None, region_width = Some 5, region_height = None,
          downScaledWidth = Some 0, downScaledHeight = None\<rparr>) None False) = 5"
  by (simp add: drawToCanvas_def resize_canvas_def drawImage_def set_width_def set_height_def
      canvasWidth_def canvasHeight_def scanRegionWidth_def scanRegionHeight_def Let_def
      region_field_def createElement_canvas_def)

section \<open>The pending request\<close>

lemma settled_settle [simp]: "settled (settle r p) \<noteq> None"
  by (simp add: settle_def split: option.splits)

lemma settled_onError [simp]: "settled (onError e p) \<noteq> None"
  by (simp add: onError_def)

lemma onMessage_other: "i \<noteq> expectedResponseId p \<Longrightarrow> onMessage i d p = p"
  by (simp add: onMessage_def)

lemma onMessage_match:
  "settled p = None \<Longrightarrow>
   settled (onMessage (expectedResponseId p) d p)
     = Some (case d of Some v \<Rightarrow> Inr \<lparr>data = v\<rparr> | None \<Rightarrow> Inl (JsString ''No QR code found''))"
  by (simp add: onMessage_def settle_def teardown_def NO_QR_CODE_FOUND_def split: option.splits)

lemma fire_timer_pending:
  "settled p = None \<Longrightarrow> timer p = Some T \<Longrightarrow>
   settled (fire_timer p) = Some (Inl (JsString ''Scanner error: timeout''))"
  by (simp add: fire_timer_def onError_def settle_def teardown_def errorMessage_def)

lemma dispatch_other_id:
  "other_id (expectedResponseId p) T tev \<Longrightarrow> dispatch (snd tev) p = p"
  by (cases tev) (auto simp: other_id_def dispatch_def onMessage_def split: worker_event.splits)

lemma run_channel_other_id:
  "list_all (other_id (expectedResponseId p) T) pre \<Longrightarrow> settled p = None \<Longrightarrow>
   run_channel T (pre @ evs) p = run_channel T evs p"
proof (induction pre)
  case Nil
  then show ?case by simp
next
  case (Cons tev pre)
  obtain t ev where tev: "tev = (t, ev)" by (cases tev)
  from Cons.prems have o: "other_id (expectedResponseId p) T (t, ev)" by (simp add: tev)
  then have "t < T" and "dispatch ev p = p"
    using dispatch_other_id [OF o] by (simp_all add: other_id_def)
  with Cons show ?case by (simp add: tev)
qed

lemma run_channel_settles:
  "timer p = Some T' \<Longrightarrow> settled (fst (run_channel T evs p)) \<noteq> None"
proof (induction evs arbitrary: p)
  case Nil
  then show ?case by (simp add: fire_timer_def)
next
  case (Cons tev evs)
  obtain t ev where tev: "tev = (t, ev)" by (cases tev)
  show ?case
  proof (cases "T \<le> t")
    case True
    with Cons.prems show ?thesis by (simp add: tev fire_timer_def)
  next
    case False
    show ?thesis
    proof (cases "settled (dispatch ev p) = None")
      case True
      then have "timer (dispatch ev p) = Some T'"
        using Cons.prems
        by (auto simp: dispatch_def onMessage_def onError_def split: if_splits worker_event.splits option.splits)
      from Cons.IH [OF this] True False show ?thesis by (simp add: tev Let_def)
    next
      case False: False
      with \<open>\<not> T \<le> t\<close> show ?thesis by (simp add: tev Let_def)
    qed
  qed
qed

lemma run_channel_timeout:
  "list_all (other_id (expectedResponseId p) T) (takeWhile (\<lambda>tev. fst tev < T) evs) \<Longrightarrow>
   settled p = None \<Longrightarrow> timer p = Some T' \<Longrightarrow>
   run_channel T evs p = (fire_timer p, T)"
proof (induction evs)
  case Nil
  then show ?case by simp
next
  case (Cons tev evs)
  obtain t ev where tev: "tev = (t, ev)" by (cases tev)
  show ?case
  proof (cases "T \<le> t")
    case True
    then show ?thesis by (simp add: tev)
  next
    case False
    with Cons.prems have o: "other_id (expectedResponseId p) T (t, ev)" by (simp add: tev)
    have "dispatch ev p = p" using dispatch_other_id [OF o] by simp
    with Cons False show ?thesis by (simp add: tev)
  qed
qed

section \<open>Unfolding one call\<close>

lemma decodeWorker_outcome:
  "fst (decodeWorker f opts k cv s)
     = settled (fst (run_channel (deadline opts) (channel f)
                  (new_request (decode_id opts s) (deadline opts))))"
  by (auto simp: decodeWorker_def postWorkerMessageSync_def decode_id_def Let_def add.commute
      split: prod.splits)

lemma decodeWorker_settles: "fst (decodeWorker f opts k cv s) \<noteq> None"
  unfolding decodeWorker_outcome
  by (rule run_channel_settles [where T' = "deadline opts"]) (simp add: new_request_def)

lemma decodeWorker_cases:
  obtains r t s' where "decodeWorker f opts k cv s = (Some r, t, s')"
proof -
  obtain ro t s' where d: "decodeWorker f opts k cv s = (ro, t, s')"
    by (cases "decodeWorker f opts k cv s") auto
  with decodeWorker_settles [of f opts k cv s] obtain r where "ro = Some r" by auto
  with d that show ?thesis by blast
qed

lemma tryBody_worker:
  assumes "acquire f inp opts s = ((Inr (Worker k, img), t0), s1)"
    and "decodeWorker f opts k
           (drawToCanvas img (scanRegion opts) (canvas_opt opts) (disallowCanvasResizing opts)) s1
         = (Some r, t, s2)"
  shows "tryBody retry f inp opts s
         = Some (r, t0 + t, s2, Some (Worker k),
             Some (drawToCanvas img (scanRegion opts) (canvas_opt opts) (disallowCanvasResizing opts)))"
  using assms by (simp add: tryBody_def Let_def)

lemma tryBody_acquire_fails:
  assumes "acquire f inp opts s = ((Inl e, t0), s1)"
  shows "tryBody retry f inp opts s = Some (Inl e, t0, s1, qrEngine opts, canvas_opt opts)"
  using assms by (simp add: tryBody_def)

lemma scanImage_resolves:
  assumes "tryBody (scanImage n w CapabilityRetry inp) (w (calls s)) inp opts (enter site opts s)
           = Some (Inr res, t, s1, e, cv)"
  shows "scanImage (Suc n) w site inp opts s = Some (Inr res, t, cleanup opts e s1)"
  using assms by simp

lemma scanImage_rejects:
  assumes "tryBody (scanImage n w CapabilityRetry inp) (w (calls s)) inp opts (enter site opts s)
           = Some (Inl err, t, s1, e, cv)"
    and "scanRegion opts = None \<or> \<not> alsoTryWithoutScanRegion opts"
  shows "scanImage (Suc n) w site inp opts s = Some (Inl err, t, cleanup opts e s1)"
  using assms by auto

lemma scanImage_falls_back:
  assumes "tryBody (scanImage n w CapabilityRetry inp) (w (calls s)) inp opts (enter site opts s)
           = Some (Inl err, t, s1, e, cv)"
    and "scanRegion opts \<noteq> None" and "alsoTryWithoutScanRegion opts"
  shows "scanImage (Suc n) w site inp opts s
         = (case scanImage n w RegionlessRetry inp (regionlessRetryOptions opts e cv) s1 of
              None \<Rightarrow> None
            | Some (r', t', s2) \<Rightarrow> Some (r', t + t', cleanup opts e s2))"
  using assms by auto

section \<open>Unfolding an example run\<close>

text \<open>The equations that evaluate a run in one of the example environments.\<close>

lemmas example_defs =
  always_def first_then_def plain_window_def native_window_def worker_frame_def native_frame_def example_image_def
  example_region_def no_options_def initial_state_def

lemmas model_defs =
  acquire_def createQrEngine_def useBarcodeDetector_def createWorker_def
  isChromiumOnMacWithArmVentura_def loadImage_def awaitImageLoad_def promise_all_def enter_def
  decode_id_def deadline_def other_id_def increment_def

lemmas run_defs =
  scanImage.simps(2) tryBody_def decodeWorker_def decodeDetector_def race_def
  postWorkerMessageSync_def postWorkerMessage_def cleanup_def new_request_def dispatch_def
  onMessage_def onError_def errorMessage_def fire_timer_def settle_def teardown_def
  drawToCanvas_def resize_canvas_def drawImage_def set_width_def set_height_def canvasWidth_def
  canvasHeight_def scanRegionWidth_def scanRegionHeight_def region_field_def region_offset_def
  createElement_canvas_def Let_def capabilityRetryOptions_def regionlessRetryOptions_def
  thrown_message_def capabilityError_def NO_QR_CODE_FOUND_def

section \<open>The native detector without a detection\<close>

lemma tryBody_detector:
  assumes "acquire f inp opts s = ((Inr (BarcodeDetector k, img), t0), s1)"
  shows "tryBody retry f inp opts s
         = (case decodeDetector retry f opts
                  (drawToCanvas img (scanRegion opts) (canvas_opt opts) (disallowCanvasResizing opts)) s1 of
              None \<Rightarrow> None
            | Some ((r, t), s2) \<Rightarrow>
                Some (r, t0 + t, s2, Some (BarcodeDetector k),
                  Some (drawToCanvas img (scanRegion opts) (canvas_opt opts) (disallowCanvasResizing opts))))"
  using assms by (simp add: tryBody_def Let_def)

lemma decodeDetector_resolves:
  assumes "detect f = DetectResolves td found" and "td < deadline opts"
  shows "decodeDetector retry f opts cv s
         = Some ((Inr \<lparr>data = (case found of [] \<Rightarrow> NO_QR_CODE_FOUND | v # _ \<Rightarrow> v)\<rparr>, td),
                 s\<lparr>trace := trace s @ [TimerArmed (deadline opts)]\<rparr>)"
  using assms by (simp add: decodeDetector_def race_def Let_def)

text \<open>
  Claim C3. On the native-detector path, when \<^verbatim>\<open>detect\<close> resolves before the deadline
  with no detection, the call resolves with \<open>{data: 'No QR code found'}\<close>; it does not
  reject, whatever the region and fallback options are.
\<close>

theorem detector_no_code_resolves:
  assumes acq: "acquire (w (calls s)) inp opts (enter site opts s)
                  = ((Inr (BarcodeDetector k, img), t0), s1)"
    and det: "detect (w (calls s)) = DetectResolves td []"
    and td: "td < deadline opts"
  shows "\<exists>t' s'. scanImage (Suc n) w site inp opts s
                   = Some (Inr \<lparr>data = ''No QR code found''\<rparr>, t', s')"
proof -
  let ?cv = "drawToCanvas img (scanRegion opts) (canvas_opt opts) (disallowCanvasResizing opts)"
  let ?retry = "scanImage n w CapabilityRetry inp"
  have "tryBody ?retry (w (calls s)) inp opts (enter site opts s)
          = Some (Inr \<lparr>data = ''No QR code found''\<rparr>, t0 + td,
                  s1\<lparr>trace := trace s1 @ [TimerArmed (deadline opts)]\<rparr>,
                  Some (BarcodeDetector k), Some ?cv)"
    by (simp add: tryBody_detector [OF acq] decodeDetector_resolves [OF det td] NO_QR_CODE_FOUND_def)
  from scanImage_resolves [OF this] show ?thesis by blast
qed

theorem detector_no_code_resolves_witness:
  "\<exists>t' s'. scanImage (Suc 0) (\<lambda>_. native_frame (DetectResolves 4 []) [])
      Caller (Drawable example_image) no_options initial_state
    = Some (Inr \<lparr>data = ''No QR code found''\<rparr>, t', s')"
proof -
  let ?f = "native_frame (DetectResolves 4 []) []"
  let ?s1 = "snd (acquire ?f (Drawable example_image) no_options (enter Caller no_options initial_state))"
  have acq: "acquire ((\<lambda>_. ?f) (calls initial_state)) (Drawable example_image) no_options
               (enter Caller no_options initial_state)
             = ((Inr (BarcodeDetector 0, example_image), 5), ?s1)"
    by (simp add: example_defs model_defs)
  have det: "detect ((\<lambda>_. ?f) (calls initial_state)) = DetectResolves 4 []"
    by (simp add: native_frame_def)
  have td: "4 < deadline no_options"
    by (simp add: example_defs model_defs)
  from detector_no_code_resolves [where n = 0, OF acq det td] show ?thesis .
qed

section \<open>Steps of a run\<close>

text \<open>
  Whatever a call does to the state is made of a few steps: the selection of an engine,
  the posting of a message, the arming of the timer with the deadline of the call, the
  setting of the flag, and the calls of the two retries. A relation between states that
  is reflexive and transitive and holds for each of these steps holds between the state
  on entry and the state a call returns. The properties of whole runs below are instances.
\<close>

declare scanImage.simps(2) [simp del]

lemma acquire_steps:
  assumes refl: "\<And>s. R s s"
    and create: "\<And>wn s. R s (snd (createQrEngine wn s))"
  shows "R s (snd (acquire f inp opts s))"
proof (cases "qrEngine opts")
  case None
  then have "snd (acquire f inp opts s) = snd (createQrEngine (win f) s)"
    by (simp add: acquire_def split: prod.splits)
  with create show ?thesis by simp
next
  case (Some en)
  then show ?thesis by (simp add: acquire_def refl)
qed

lemma decodeWorker_steps:
  assumes refl: "\<And>s. R s s"
    and trans: "\<And>a b c. R a b \<Longrightarrow> R b c \<Longrightarrow> R a c"
    and post: "\<And>e ty d s. R s (snd (postWorkerMessageSync e ty d s))"
    and timer: "\<And>s. R s (s\<lparr>trace := trace s @ [TimerArmed (deadline opts)]\<rparr>)"
  shows "R s (snd (snd (decodeWorker f opts k cv s)))"
proof -
  let ?s1 = "if qrEngine opts = None
             then snd (postWorkerMessageSync (Some (Worker k)) ''inversionMode'' (StrData ''both'') s)
             else s"
  let ?s2 = "?s1\<lparr>trace := trace ?s1 @ [TimerArmed (deadline opts)]\<rparr>"
  let ?s3 = "snd (postWorkerMessageSync (Some (Worker k)) ''decode'' (ImageData cv) ?s2)"
  have eq: "snd (snd (decodeWorker f opts k cv s)) = ?s3"
    by (simp add: decodeWorker_def Let_def split: prod.splits)
  have "R s ?s1" using refl post by simp
  moreover have "R ?s1 ?s2" by (rule timer)
  moreover have "R ?s2 ?s3" by (rule post)
  ultimately have "R s ?s3" by (blast intro: trans)
  with eq show ?thesis by simp
qed

lemma decodeDetector_steps:
  assumes trans: "\<And>a b c. R a b \<Longrightarrow> R b c \<Longrightarrow> R a c"
    and timer: "\<And>s. R s (s\<lparr>trace := trace s @ [TimerArmed (deadline opts)]\<rparr>)"
    and flag: "\<And>s. R s (s\<lparr>disableBarcodeDetector := True\<rparr>)"
    and retry: "\<And>s r t s'. retry (capabilityRetryOptions opts cv) s = Some (r, t, s') \<Longrightarrow> R s s'"
    and dd: "decodeDetector retry f opts cv s = Some (x, s')"
  shows "R s s'"
proof -
  let ?s1 = "s\<lparr>trace := trace s @ [TimerArmed (deadline opts)]\<rparr>"
  have 1: "R s ?s1" by (rule timer)
  show ?thesis
  proof (cases "detect f")
    case (DetectResolves td found)
    with dd have "s' = ?s1" by (simp add: decodeDetector_def Let_def)
    with 1 show ?thesis by simp
  next
    case DetectNever
    with dd have "s' = ?s1" by (simp add: decodeDetector_def Let_def)
    with 1 show ?thesis by simp
  next
    case (DetectRejects td e)
    show ?thesis
    proof (cases "deadline opts \<le> td")
      case True
      with dd DetectRejects have "s' = ?s1" by (simp add: decodeDetector_def Let_def)
      with 1 show ?thesis by simp
    next
      case in_time: False
      show ?thesis
      proof (cases "capabilityError (thrown_message e)")
        case False
        with dd DetectRejects in_time have "s' = ?s1" by (simp add: decodeDetector_def Let_def)
        with 1 show ?thesis by simp
      next
        case True
        with dd DetectRejects in_time obtain r t where
          "retry (capabilityRetryOptions opts cv) (?s1\<lparr>disableBarcodeDetector := True\<rparr>) = Some (r, t, s')"
          by (auto simp: decodeDetector_def Let_def split: option.splits)
        from retry [OF this] have "R (?s1\<lparr>disableBarcodeDetector := True\<rparr>) s'" .
        with 1 flag [of ?s1] show ?thesis by (blast intro: trans)
      qed
    qed
  qed
qed

lemma tryBody_steps:
  assumes refl: "\<And>s. R s s"
    and trans: "\<And>a b c. R a b \<Longrightarrow> R b c \<Longrightarrow> R a c"
    and create: "\<And>wn s. R s (snd (createQrEngine wn s))"
    and post: "\<And>e ty d s. R s (snd (postWorkerMessageSync e ty d s))"
    and timer: "\<And>s. R s (s\<lparr>trace := trace s @ [TimerArmed (deadline opts)]\<rparr>)"
    and flag: "\<And>s. R s (s\<lparr>disableBarcodeDetector := True\<rparr>)"
    and retry: "\<And>cv s r t s'. retry (capabilityRetryOptions opts cv) s = Some (r, t, s') \<Longrightarrow> R s s'"
    and tb: "tryBody retry f inp opts s = Some (r, t, s', e, cv)"
  shows "R s s'"
proof -
  obtain a t0 s1 where acq: "acquire f inp opts s = ((a, t0), s1)"
    by (cases "acquire f inp opts s") auto
  have "R s (snd (acquire f inp opts s))"
    by (rule acquire_steps) (rule refl, rule create)
  with acq have 1: "R s s1" by simp
  show ?thesis
  proof (cases a)
    case (Inl err)
    with acq have "tryBody retry f inp opts s = Some (Inl err, t0, s1, qrEngine opts, canvas_opt opts)"
      by (simp add: tryBody_acquire_fails)
    with tb have "s' = s1" by simp
    with 1 show ?thesis by simp
  next
    case (Inr p)
    obtain eng img where p: "p = (eng, img)" by (cases p)
    let ?cv = "drawToCanvas img (scanRegion opts) (canvas_opt opts) (disallowCanvasResizing opts)"
    show ?thesis
    proof (cases eng)
      case (Worker k)
      obtain r' t' s2 where dw: "decodeWorker f opts k ?cv s1 = (Some r', t', s2)"
        by (rule decodeWorker_cases)
      have acq': "acquire f inp opts s = ((Inr (Worker k, img), t0), s1)"
        using acq Inr p Worker by simp
      from tryBody_worker [OF acq' dw, of retry] tb have "s' = s2" by simp
      moreover have "R s1 (snd (snd (decodeWorker f opts k ?cv s1)))"
        by (rule decodeWorker_steps) (rule refl, erule trans, assumption, rule post, rule timer)
      ultimately have "R s1 s'" using dw by simp
      with 1 show ?thesis by (rule trans)
    next
      case (BarcodeDetector k)
      have acq': "acquire f inp opts s = ((Inr (BarcodeDetector k, img), t0), s1)"
        using acq Inr p BarcodeDetector by simp
      from tb obtain x where dd: "decodeDetector retry f opts ?cv s1 = Some (x, s')"
        unfolding tryBody_detector [OF acq'] by (auto split: option.splits prod.splits)
      have "R s1 s'"
      proof (rule decodeDetector_steps [where R = R, OF _ _ _ _ dd])
        show "\<And>a b c. R a b \<Longrightarrow> R b c \<Longrightarrow> R a c" by (rule trans)
        show "\<And>s. R s (s\<lparr>trace := trace s @ [TimerArmed (deadline opts)]\<rparr>)" by (rule timer)
        show "\<And>s. R s (s\<lparr>disableBarcodeDetector := True\<rparr>)" by (rule flag)
        show "\<And>s r t s'. retry (capabilityRetryOptions opts ?cv) s = Some (r, t, s') \<Longrightarrow> R s s'"
          by (rule retry)
      qed
      with 1 show ?thesis by (rule trans)
    qed
  qed
qed

lemma cleanup_steps:
  assumes refl: "\<And>s. R s s"
    and post: "\<And>e ty d s. R s (snd (postWorkerMessageSync e ty d s))"
  shows "R s (cleanup opts e s)"
  using assms by (simp add: cleanup_def postWorkerMessage_def)


lemma scanImage_steps:
  assumes refl: "\<And>opts s. R opts s s"
    and trans: "\<And>opts a b c. R opts a b \<Longrightarrow> R opts b c \<Longrightarrow> R opts a c"
    and create: "\<And>opts wn s. R opts s (snd (createQrEngine wn s))"
    and post: "\<And>opts e ty d s. R opts s (snd (postWorkerMessageSync e ty d s))"
    and timer: "\<And>opts s. R opts s (s\<lparr>trace := trace s @ [TimerArmed (deadline opts)]\<rparr>)"
    and flag: "\<And>opts s. R opts s (s\<lparr>disableBarcodeDetector := True\<rparr>)"
    and nest_cap: "\<And>opts cv s s'.
        R (capabilityRetryOptions opts cv) (enter CapabilityRetry (capabilityRetryOptions opts cv) s) s'
        \<Longrightarrow> R opts s s'"
    and nest_reg: "\<And>opts e cv s s'. scanRegion opts \<noteq> None \<Longrightarrow> alsoTryWithoutScanRegion opts \<Longrightarrow>
        R (regionlessRetryOptions opts e cv) (enter RegionlessRetry (regionlessRetryOptions opts e cv) s) s'
        \<Longrightarrow> R opts s s'"
  shows "scanImage n w site inp opts s = Some (r, t, s') \<Longrightarrow> R opts (enter site opts s) s'"
proof (induction n arbitrary: site opts s r t s')
  case 0
  then show ?case by simp
next
  case (Suc n)
  let ?retry = "scanImage n w CapabilityRetry inp"
  from Suc.prems obtain r1 t1 s1 e cv where
    tb: "tryBody ?retry (w (calls s)) inp opts (enter site opts s) = Some (r1, t1, s1, e, cv)"
    by (auto simp: scanImage.simps(2) split: option.splits)
  have 1: "R opts (enter site opts s) s1"
  proof (rule tryBody_steps [where R = "R opts", OF _ _ _ _ _ _ _ tb])
    show "\<And>s. R opts s s" by (rule refl)
    show "\<And>a b c. R opts a b \<Longrightarrow> R opts b c \<Longrightarrow> R opts a c" by (rule trans)
    show "\<And>wn s. R opts s (snd (createQrEngine wn s))" by (rule create)
    show "\<And>e ty d s. R opts s (snd (postWorkerMessageSync e ty d s))" by (rule post)
    show "\<And>s. R opts s (s\<lparr>trace := trace s @ [TimerArmed (deadline opts)]\<rparr>)" by (rule timer)
    show "\<And>s. R opts s (s\<lparr>disableBarcodeDetector := True\<rparr>)" by (rule flag)
    show "\<And>cv s r t s'. ?retry (capabilityRetryOptions opts cv) s = Some (r, t, s') \<Longrightarrow> R opts s s'"
      by (rule nest_cap) (rule Suc.IH)
  qed
  have cl: "\<And>s. R opts s (cleanup opts e s)"
    by (rule cleanup_steps) (rule refl, rule post)
  show ?case
  proof (cases "(\<exists>err. r1 = Inl err) \<and> scanRegion opts \<noteq> None \<and> alsoTryWithoutScanRegion opts")
    case False
    with Suc.prems tb have "s' = cleanup opts e s1"
      by (auto simp: scanImage.simps(2) split: sum.splits if_splits)
    with 1 cl [of s1] show ?thesis using trans by blast
  next
    case True
    then obtain err where r1: "r1 = Inl err" by blast
    from scanImage_falls_back [OF tb [unfolded r1]] True Suc.prems obtain r2 t2 s2 where
      rr: "scanImage n w RegionlessRetry inp (regionlessRetryOptions opts e cv) s1 = Some (r2, t2, s2)"
      and s': "s' = cleanup opts e s2"
      by (auto split: option.splits)
    from True have "R opts s1 s2"
      by (intro nest_reg [OF _ _ Suc.IH [OF rr]]) simp_all
    with 1 cl [of s2] s' show ?thesis using trans by blast
  qed
qed

section \<open>Invariants of a run\<close>

lemma posted_ids_append: "posted_ids (xs @ ys) = posted_ids xs @ posted_ids ys"
  by (induction xs rule: posted_ids.induct) simp_all

lemma invoked_append: "invoked c (xs @ ys) = invoked c xs @ invoked c ys"
  by (induction c xs rule: invoked.induct) simp_all

lemma closes_append: "closes k (xs @ ys) = closes k xs + closes k ys"
  by (induction k xs rule: closes.induct) simp_all

lemma increment_below: "n < 2 ^ 53 \<Longrightarrow> increment n = Suc n"
  by (simp add: increment_def)

lemma increment_ge: "n \<le> increment n"
  by (simp add: increment_def)

lemma increment_stuck: "increment (2 ^ 53) = 2 ^ 53"
  by (simp add: increment_def)

lemma createQrEngine_state:
  "createQrEngine wn s = (e, s') \<Longrightarrow>
   disableBarcodeDetector s' = disableBarcodeDetector s \<and> workerMessageId s' = workerMessageId s
   \<and> calls s' = calls s
   \<and> (trace s' = trace s \<or> (\<exists>en. e = Inr en \<and> trace s' = trace s @ [Created en]))"
  by (auto simp: createQrEngine_def createWorker_def split: sum.splits if_splits option.splits)

lemma postWorkerMessageSync_state:
  "postWorkerMessageSync e ty d s = (i, s') \<Longrightarrow>
   disableBarcodeDetector s' = disableBarcodeDetector s \<and> calls s' = calls s
   \<and> nextEngine s' = nextEngine s
   \<and> ((i = - 1 \<and> s' = s) \<or>
       (\<exists>k. e = Some (Worker k) \<and> i = int (workerMessageId s)
          \<and> workerMessageId s' = increment (workerMessageId s)
          \<and> trace s' = trace s @ [Posted k \<lparr>msg_id = workerMessageId s, msg_type = ty, msg_data = d\<rparr>]))"
  by (auto simp: postWorkerMessageSync_def split: option.splits engine.splits)

text \<open>The flag is never cleared.\<close>

lemma scanImage_keeps_flag:
  assumes "scanImage n w site inp opts s = Some (r, t, s')" and "disableBarcodeDetector s"
  shows "disableBarcodeDetector s'"
proof -
  let ?R = "\<lambda>(opts::options) s s'. disableBarcodeDetector s \<longrightarrow> disableBarcodeDetector s'"
  have "?R opts (enter site opts s) s'"
  proof (rule scanImage_steps [where R = ?R, OF _ _ _ _ _ _ _ _ assms(1)])
    show "\<And>opts wn s. ?R opts s (snd (createQrEngine wn s))"
      using createQrEngine_state by (metis prod.collapse)
    show "\<And>opts e ty d s. ?R opts s (snd (postWorkerMessageSync e ty d s))"
      using postWorkerMessageSync_state by (metis prod.collapse)
  qed (simp_all add: enter_def)
  with assms(2) show ?thesis by (simp add: enter_def)
qed

text \<open>
  The counter never goes down, and while it stays below \<open>2^53\<close> the ids posted are
  the numbers from 0 up to it, in order.
\<close>

lemma scanImage_ids:
  assumes "scanImage n w site inp opts s = Some (r, t, s')"
  shows "workerMessageId s \<le> workerMessageId s'
       \<and> (ids_in_order s \<longrightarrow> workerMessageId s' < 2 ^ 53 \<longrightarrow> ids_in_order s')"
proof -
  let ?R = "\<lambda>(opts::options) s s'. workerMessageId s \<le> workerMessageId s'
     \<and> (ids_in_order s \<longrightarrow> workerMessageId s' < 2 ^ 53 \<longrightarrow> ids_in_order s')"
  have "?R opts (enter site opts s) s'"
  proof (rule scanImage_steps [where R = ?R, OF _ _ _ _ _ _ _ _ assms(1)])
    show "\<And>opts a b c. ?R opts a b \<Longrightarrow> ?R opts b c \<Longrightarrow> ?R opts a c"
      by (meson le_less_trans le_trans)
    show "\<And>opts wn s. ?R opts s (snd (createQrEngine wn s))"
    proof -
      fix opts :: options and wn s
      obtain e s' where c: "createQrEngine wn s = (e, s')" by (cases "createQrEngine wn s")
      from createQrEngine_state [OF c] show "?R opts s (snd (createQrEngine wn s))"
        by (auto simp: c ids_in_order_def posted_ids_append)
    qed
    show "\<And>opts e ty d s. ?R opts s (snd (postWorkerMessageSync e ty d s))"
    proof -
      fix opts :: options and e ty d s
      obtain i s' where c: "postWorkerMessageSync e ty d s = (i, s')"
        by (cases "postWorkerMessageSync e ty d s")
      from postWorkerMessageSync_state [OF c] consider "s' = s"
        | k where "workerMessageId s' = increment (workerMessageId s)"
            "trace s' = trace s @ [Posted k \<lparr>msg_id = workerMessageId s, msg_type = ty, msg_data = d\<rparr>]"
        by blast
      then have "?R opts s s'"
      proof cases
        case 1
        then show ?thesis by simp
      next
        case 2
        have ge: "workerMessageId s \<le> workerMessageId s'"
          using 2(1) increment_ge by simp
        have "ids_in_order s'" if inv: "ids_in_order s" and lt: "workerMessageId s' < 2 ^ 53"
        proof -
          from ge lt have "workerMessageId s < 2 ^ 53" by simp
          with 2(1) have "workerMessageId s' = Suc (workerMessageId s)" by (simp add: increment_below)
          with inv 2(2) show ?thesis by (simp add: ids_in_order_def posted_ids_append)
        qed
        with ge show ?thesis by blast
      qed
      then show "?R opts s (snd (postWorkerMessageSync e ty d s))" by (simp add: c)
    qed
  qed (auto simp: enter_def ids_in_order_def posted_ids_append)
  then show ?thesis by (simp add: enter_def ids_in_order_def posted_ids_append)
qed

section \<open>Every call returns\<close>

lemma createQrEngine_disabled:
  "disableBarcodeDetector s \<Longrightarrow> createQrEngine wn s = createWorker wn s"
  by (simp add: createQrEngine_def useBarcodeDetector_def)

lemma createWorker_cases:
  "(\<exists>e. createWorker wn s = (Inl e, s))
   \<or> (\<exists>k s'. createWorker wn s = (Inr (Worker k), s') \<and> disableBarcodeDetector s' = disableBarcodeDetector s)"
  by (simp add: createWorker_def split: option.splits)

lemma no_detector_flag:
  "disableBarcodeDetector s' = disableBarcodeDetector s \<Longrightarrow> no_detector opts s' = no_detector opts s"
  by (simp add: no_detector_def split: option.splits engine.splits)

lemma no_detector_enter [simp]: "no_detector opts (enter site opts' s) = no_detector opts s"
  by (rule no_detector_flag) (simp add: enter_def)

lemma promise_all_Inr:
  "promise_all e te i ti = (Inr (en, im), t) \<Longrightarrow> e = Inr en \<and> i = Inr im"
  by (auto simp: promise_all_def split: sum.splits if_splits)

lemma acquire_state:
  "acquire f inp opts s = ((a, t0), s1) \<Longrightarrow>
   disableBarcodeDetector s1 = disableBarcodeDetector s \<and> calls s1 = calls s
   \<and> workerMessageId s1 = workerMessageId s"
  by (cases "qrEngine opts")
    (auto simp: acquire_def split: prod.splits dest: createQrEngine_state)

lemma acquire_no_detector:
  assumes nd: "no_detector opts s" and acq: "acquire f inp opts s = ((Inr (e, img), t0), s1)"
  shows "\<exists>k. e = Worker k"
proof (cases "qrEngine opts")
  case None
  with nd have d: "disableBarcodeDetector s" by (simp add: no_detector_def)
  from acq None obtain x where "createWorker (win f) s = (x, s1)"
    and "promise_all x (engineMs f) (loadImage inp (loadEvent f)) (imageMs f) = (Inr (e, img), t0)"
    by (auto simp: acquire_def createQrEngine_disabled [OF d] split: prod.splits)
  with promise_all_Inr have "createWorker (win f) s = (Inr e, s1)" by blast
  then show ?thesis by (auto simp: createWorker_def split: option.splits)
next
  case (Some en)
  with acq have "promise_all (Inr en) 0 (loadImage inp (loadEvent f)) (imageMs f) = (Inr (e, img), t0)"
    by (simp add: acquire_def)
  with promise_all_Inr have "en = e" by blast
  with nd Some show ?thesis by (cases e) (simp_all add: no_detector_def)
qed

lemma acquire_engine:
  assumes "acquire f inp opts s = ((Inr (e, img), t0), s1)" and "qrEngine opts = Some en"
  shows "e = en"
  using assms promise_all_Inr by (fastforce simp: acquire_def)

text \<open>Without the native detector the \<^verbatim>\<open>try\<close> block returns, whatever the retry is.\<close>

lemma tryBody_no_detector:
  assumes nd: "no_detector opts s"
  shows "\<exists>r t s1 e cv. tryBody retry f inp opts s = Some (r, t, s1, e, cv)
           \<and> no_detector (regionlessRetryOptions opts e cv) s1"
proof -
  obtain a t0 s1 where acq: "acquire f inp opts s = ((a, t0), s1)"
    by (cases "acquire f inp opts s") auto
  from acquire_state [OF acq] have d: "disableBarcodeDetector s1 = disableBarcodeDetector s" by simp
  show ?thesis
  proof (cases a)
    case (Inl err)
    with acq have "tryBody retry f inp opts s = Some (Inl err, t0, s1, qrEngine opts, canvas_opt opts)"
      by (simp add: tryBody_acquire_fails)
    moreover have "no_detector (regionlessRetryOptions opts (qrEngine opts) (canvas_opt opts)) s1"
      using nd d by (simp add: no_detector_def regionlessRetryOptions_def split: option.splits engine.splits)
    ultimately show ?thesis by blast
  next
    case (Inr p)
    obtain e img where p: "p = (e, img)" by (cases p)
    with acq Inr have acq': "acquire f inp opts s = ((Inr (e, img), t0), s1)" by simp
    from acquire_no_detector [OF nd acq'] obtain k where k: "e = Worker k" ..
    let ?cv = "drawToCanvas img (scanRegion opts) (canvas_opt opts) (disallowCanvasResizing opts)"
    obtain r t s2 where dw: "decodeWorker f opts k ?cv s1 = (Some r, t, s2)"
      by (rule decodeWorker_cases)
    from tryBody_worker [OF acq' [unfolded k] dw]
    have "tryBody retry f inp opts s = Some (r, t0 + t, s2, Some (Worker k), Some ?cv)" .
    moreover have "no_detector (regionlessRetryOptions opts (Some (Worker k)) (Some ?cv)) s2"
      by (simp add: no_detector_def regionlessRetryOptions_def)
    ultimately show ?thesis by blast
  qed
qed

lemma scanImage_total_1:
  assumes "no_detector opts s" and "\<not> fallback opts"
  shows "\<exists>x. scanImage (Suc n) w site inp opts s = Some x"
proof -
  have "no_detector opts (enter site opts s)"
    using assms(1) by simp
  from tryBody_no_detector [OF this] obtain r t s1 e cv where
    tb: "tryBody (scanImage n w CapabilityRetry inp) (w (calls s)) inp opts (enter site opts s)
         = Some (r, t, s1, e, cv)" by blast
  show ?thesis
  proof (cases r)
    case (Inl err)
    with tb assms(2) scanImage_rejects [of n w inp s opts site err t s1 e cv] show ?thesis
      by (auto simp: fallback_def)
  next
    case (Inr res)
    with tb scanImage_resolves [of n w inp s opts site res t s1 e cv] show ?thesis by simp
  qed
qed

lemma scanImage_total_2a:
  assumes "no_detector opts s"
  shows "\<exists>x. scanImage (Suc (Suc n)) w site inp opts s = Some x"
proof -
  have "no_detector opts (enter site opts s)"
    using assms(1) by simp
  from tryBody_no_detector [OF this] obtain r t s1 e cv where
    tb: "tryBody (scanImage (Suc n) w CapabilityRetry inp) (w (calls s)) inp opts (enter site opts s)
         = Some (r, t, s1, e, cv)"
    and nd: "no_detector (regionlessRetryOptions opts e cv) s1" by blast
  show ?thesis
  proof (cases "(\<exists>err. r = Inl err) \<and> fallback opts")
    case False
    show ?thesis
    proof (cases r)
      case (Inl err)
      with False tb scanImage_rejects [of "Suc n" w inp s opts site err t s1 e cv] show ?thesis
        by (auto simp: fallback_def)
    next
      case (Inr res)
      with tb scanImage_resolves [of "Suc n" w inp s opts site res t s1 e cv] show ?thesis by simp
    qed
  next
    case True
    then obtain err where r: "r = Inl err" by blast
    have "\<not> fallback (regionlessRetryOptions opts e cv)"
      by (simp add: fallback_def regionlessRetryOptions_def)
    from scanImage_total_1 [OF nd this] obtain r' t' s2 where
      "scanImage (Suc n) w RegionlessRetry inp (regionlessRetryOptions opts e cv) s1 = Some (r', t', s2)"
      by (metis prod.exhaust)
    with scanImage_falls_back [OF tb [unfolded r]] True show ?thesis
      by (simp add: fallback_def)
  qed
qed

lemma decodeDetector_returns:
  assumes "\<And>s'. disableBarcodeDetector s' \<Longrightarrow> \<exists>x. retry (capabilityRetryOptions opts cv) s' = Some x"
  shows "\<exists>x. decodeDetector retry f opts cv s = Some x"
proof (cases "detect f")
  case (DetectRejects td e)
  show ?thesis
  proof (cases "\<not> deadline opts \<le> td \<and> capabilityError (thrown_message e)")
    case True
    let ?s = "s\<lparr>trace := trace s @ [TimerArmed (deadline opts)], disableBarcodeDetector := True\<rparr>"
    have "disableBarcodeDetector ?s" by simp
    from assms [OF this] obtain x where "retry (capabilityRetryOptions opts cv) ?s = Some x" ..
    moreover obtain r t s2 where "x = (r, t, s2)" by (cases x)
    ultimately show ?thesis using DetectRejects True by (simp add: decodeDetector_def Let_def)
  next
    case False
    with DetectRejects show ?thesis by (auto simp: decodeDetector_def Let_def)
  qed
qed (simp_all add: decodeDetector_def Let_def)

lemma tryBody_returns:
  assumes "\<And>cv s'. disableBarcodeDetector s' \<Longrightarrow> \<exists>x. retry (capabilityRetryOptions opts cv) s' = Some x"
  shows "\<exists>x. tryBody retry f inp opts s = Some x"
proof -
  obtain a t0 s1 where acq: "acquire f inp opts s = ((a, t0), s1)"
    by (cases "acquire f inp opts s") auto
  show ?thesis
  proof (cases a)
    case (Inl err)
    with acq show ?thesis by (simp add: tryBody_acquire_fails)
  next
    case (Inr p)
    obtain e img where p: "p = (e, img)" by (cases p)
    let ?cv = "drawToCanvas img (scanRegion opts) (canvas_opt opts) (disallowCanvasResizing opts)"
    show ?thesis
    proof (cases e)
      case (Worker k)
      obtain r t s2 where dw: "decodeWorker f opts k ?cv s1 = (Some r, t, s2)"
        by (rule decodeWorker_cases)
      from acq Inr p Worker have "acquire f inp opts s = ((Inr (Worker k, img), t0), s1)" by simp
      from tryBody_worker [OF this dw] show ?thesis by simp
    next
      case (BarcodeDetector k)
      from acq Inr p BarcodeDetector
      have acq': "acquire f inp opts s = ((Inr (BarcodeDetector k, img), t0), s1)" by simp
      from decodeDetector_returns [of retry opts ?cv f s1] assms
      obtain x where "decodeDetector retry f opts ?cv s1 = Some x" by blast
      then show ?thesis by (simp add: tryBody_detector [OF acq'] split: prod.splits)
    qed
  qed
qed

lemma no_detector_capabilityRetry:
  "disableBarcodeDetector s \<Longrightarrow> no_detector (capabilityRetryOptions opts cv) s"
  by (simp add: no_detector_def capabilityRetryOptions_def)

lemma fallback_capabilityRetry [simp]:
  "fallback (capabilityRetryOptions opts cv) = fallback opts"
  by (simp add: fallback_def capabilityRetryOptions_def)

lemma fallback_regionlessRetry [simp]:
  "\<not> fallback (regionlessRetryOptions opts e cv)"
  by (simp add: fallback_def regionlessRetryOptions_def)

lemma scanImage_total_2b:
  assumes "\<not> fallback opts"
  shows "\<exists>x. scanImage (Suc (Suc n)) w site inp opts s = Some x"
proof -
  have "\<exists>x. tryBody (scanImage (Suc n) w CapabilityRetry inp) (w (calls s)) inp opts (enter site opts s)
          = Some x"
  proof (rule tryBody_returns)
    fix cv and s' :: state
    assume "disableBarcodeDetector s'"
    then show "\<exists>x. scanImage (Suc n) w CapabilityRetry inp (capabilityRetryOptions opts cv) s' = Some x"
      using assms by (intro scanImage_total_1) (simp_all add: no_detector_capabilityRetry)
  qed
  then obtain x where
    "tryBody (scanImage (Suc n) w CapabilityRetry inp) (w (calls s)) inp opts (enter site opts s) = Some x" ..
  moreover obtain r t s1 e cv where "x = (r, t, s1, e, cv)" by (cases x)
  ultimately have
    tb: "tryBody (scanImage (Suc n) w CapabilityRetry inp) (w (calls s)) inp opts (enter site opts s)
         = Some (r, t, s1, e, cv)" by simp
  show ?thesis
  proof (cases r)
    case (Inl err)
    with tb assms scanImage_rejects [of "Suc n" w inp s opts site err t s1 e cv] show ?thesis
      by (auto simp: fallback_def)
  next
    case (Inr res)
    with tb scanImage_resolves [of "Suc n" w inp s opts site res t s1 e cv] show ?thesis by simp
  qed
qed

text \<open>
  Three levels are enough: a call, a retry it makes, and a retry made by that retry.
  With this bound every call returns.
\<close>

lemma scanImage_returns:
  "\<exists>r t s'. scanImage (Suc (Suc (Suc n))) w site inp opts s = Some (r, t, s')"
proof -
  let ?retry = "scanImage (Suc (Suc n)) w CapabilityRetry inp"
  have "\<exists>x. tryBody ?retry (w (calls s)) inp opts (enter site opts s) = Some x"
  proof (rule tryBody_returns)
    fix cv and s' :: state
    assume "disableBarcodeDetector s'"
    then show "\<exists>x. ?retry (capabilityRetryOptions opts cv) s' = Some x"
      by (intro scanImage_total_2a) (simp add: no_detector_capabilityRetry)
  qed
  then obtain x where "tryBody ?retry (w (calls s)) inp opts (enter site opts s) = Some x" ..
  moreover obtain r t s1 e cv where "x = (r, t, s1, e, cv)" by (cases x)
  ultimately have
    tb: "tryBody ?retry (w (calls s)) inp opts (enter site opts s) = Some (r, t, s1, e, cv)"
    by simp
  show ?thesis
  proof (cases "(\<exists>err. r = Inl err) \<and> fallback opts")
    case False
    show ?thesis
    proof (cases r)
      case (Inl err)
      with False tb scanImage_rejects [of "Suc (Suc n)" w inp s opts site err t s1 e cv] show ?thesis
        by (auto simp: fallback_def)
    next
      case (Inr res)
      with tb scanImage_resolves [of "Suc (Suc n)" w inp s opts site res t s1 e cv] show ?thesis by simp
    qed
  next
    case True
    then obtain err where r: "r = Inl err" by blast
    from scanImage_total_2b [of "regionlessRetryOptions opts e cv" n w RegionlessRetry inp s1]
    obtain y where
      "scanImage (Suc (Suc n)) w RegionlessRetry inp (regionlessRetryOptions opts e cv) s1 = Some y"
      by auto
    moreover obtain r' t' s2 where "y = (r', t', s2)" by (cases y)
    ultimately have
      "scanImage (Suc (Suc n)) w RegionlessRetry inp (regionlessRetryOptions opts e cv) s1 = Some (r', t', s2)"
      by simp
    with scanImage_falls_back [OF tb [unfolded r]] True show ?thesis
      by (simp add: fallback_def)
  qed
qed

text \<open>A larger bound does not change what a call returns.\<close>

lemma decodeDetector_mono:
  assumes "\<And>o' s y. retry o' s = Some y \<Longrightarrow> retry' o' s = Some y"
    and "decodeDetector retry f opts cv s = Some x"
  shows "decodeDetector retry' f opts cv s = Some x"
proof (cases "detect f")
  case (DetectRejects td e)
  show ?thesis
  proof (cases "\<not> deadline opts \<le> td \<and> capabilityError (thrown_message e)")
    case True
    let ?s = "s\<lparr>trace := trace s @ [TimerArmed (deadline opts)], disableBarcodeDetector := True\<rparr>"
    from assms(2) DetectRejects True obtain y where y: "retry (capabilityRetryOptions opts cv) ?s = Some y"
      by (auto simp: decodeDetector_def Let_def split: option.splits)
    from assms(1) [OF y] y assms(2) DetectRejects True show ?thesis
      by (simp add: decodeDetector_def Let_def)
  next
    case False
    with DetectRejects assms(2) show ?thesis by (auto simp: decodeDetector_def Let_def)
  qed
qed (use assms(2) in \<open>simp_all add: decodeDetector_def Let_def\<close>)

lemma tryBody_mono:
  assumes "\<And>o' s y. retry o' s = Some y \<Longrightarrow> retry' o' s = Some y"
    and "tryBody retry f inp opts s = Some x"
  shows "tryBody retry' f inp opts s = Some x"
proof -
  obtain a t0 s1 where acq: "acquire f inp opts s = ((a, t0), s1)"
    by (cases "acquire f inp opts s") auto
  show ?thesis
  proof (cases a)
    case (Inl err)
    with acq assms(2) show ?thesis by (simp add: tryBody_acquire_fails)
  next
    case (Inr p)
    obtain e img where p: "p = (e, img)" by (cases p)
    let ?cv = "drawToCanvas img (scanRegion opts) (canvas_opt opts) (disallowCanvasResizing opts)"
    show ?thesis
    proof (cases e)
      case (Worker k)
      obtain r t s2 where dw: "decodeWorker f opts k ?cv s1 = (Some r, t, s2)"
        by (rule decodeWorker_cases)
      from acq Inr p Worker have "acquire f inp opts s = ((Inr (Worker k, img), t0), s1)" by simp
      from tryBody_worker [OF this dw] assms(2) show ?thesis by simp
    next
      case (BarcodeDetector k)
      from acq Inr p BarcodeDetector
      have acq': "acquire f inp opts s = ((Inr (BarcodeDetector k, img), t0), s1)" by simp
      from assms(2) obtain y where y: "decodeDetector retry f opts ?cv s1 = Some y"
        by (auto simp: tryBody_detector [OF acq'] split: option.splits)
      from decodeDetector_mono [of retry retry', OF assms(1) y] y assms(2) show ?thesis
        by (simp add: tryBody_detector [OF acq'])
    qed
  qed
qed

lemma scanImage_mono:
  "scanImage n w site inp opts s = Some x \<Longrightarrow> scanImage (Suc n) w site inp opts s = Some x"
proof (induction n arbitrary: site opts s x)
  case 0
  then show ?case by simp
next
  case (Suc n)
  let ?retry = "scanImage n w CapabilityRetry inp" and ?retry' = "scanImage (Suc n) w CapabilityRetry inp"
  from Suc.prems obtain r t s1 e cv where
    tb: "tryBody ?retry (w (calls s)) inp opts (enter site opts s) = Some (r, t, s1, e, cv)"
    by (auto simp: scanImage.simps(2) split: option.splits)
  have tb': "tryBody ?retry' (w (calls s)) inp opts (enter site opts s) = Some (r, t, s1, e, cv)"
    by (rule tryBody_mono [OF _ tb]) (rule Suc.IH)
  show ?case
  proof (cases "(\<exists>err. r = Inl err) \<and> fallback opts")
    case False
    show ?thesis
    proof (cases r)
      case (Inl err)
      with False have nf: "scanRegion opts = None \<or> \<not> alsoTryWithoutScanRegion opts"
        by (auto simp: fallback_def)
      from scanImage_rejects [OF tb [unfolded Inl] nf] scanImage_rejects [OF tb' [unfolded Inl] nf]
        Suc.prems show ?thesis by simp
    next
      case (Inr res)
      from scanImage_resolves [OF tb [unfolded Inr]] scanImage_resolves [OF tb' [unfolded Inr]]
        Suc.prems show ?thesis by simp
    qed
  next
    case True
    then obtain err where r: "r = Inl err" and fb: "scanRegion opts \<noteq> None" "alsoTryWithoutScanRegion opts"
      by (auto simp: fallback_def)
    from scanImage_falls_back [OF tb [unfolded r] fb] Suc.prems obtain y where
      y: "scanImage n w RegionlessRetry inp (regionlessRetryOptions opts e cv) s1 = Some y"
      by (auto split: option.splits)
    from Suc.IH [OF y] scanImage_falls_back [OF tb [unfolded r] fb]
      scanImage_falls_back [OF tb' [unfolded r] fb] y Suc.prems
    show ?thesis by simp
  qed
qed

lemma scanImage_bound:
  assumes "scanImage n w site inp opts s = Some x"
  shows "scanImage (n + m) w site inp opts s = Some x"
  using assms by (induction m) (simp_all add: scanImage_mono)

section \<open>The region-less retry\<close>

lemma createQrEngine_trace:
  "\<exists>tr. trace (snd (createQrEngine wn s)) = trace s @ tr
        \<and> invoked c tr = [] \<and> posted_ids tr = [] \<and> list_all (\<lambda>e. \<forall>T. e \<noteq> TimerArmed T) tr"
proof -
  obtain e s' where c: "createQrEngine wn s = (e, s')" by (cases "createQrEngine wn s")
  from createQrEngine_state [OF c] show ?thesis by (auto simp: c)
qed

lemma postWorkerMessageSync_trace:
  "\<exists>tr. trace (snd (postWorkerMessageSync e ty d s)) = trace s @ tr
        \<and> invoked c tr = [] \<and> list_all (\<lambda>e. \<forall>T. e \<noteq> TimerArmed T) tr"
proof -
  obtain i s' where c: "postWorkerMessageSync e ty d s = (i, s')"
    by (cases "postWorkerMessageSync e ty d s")
  from postWorkerMessageSync_state [OF c] show ?thesis by (auto simp: c)
qed

text \<open>A call that has no fallback to make contains no region-less retry at any depth.\<close>

lemma no_regionless_inside:
  assumes run: "scanImage n w site inp opts s = Some (r, t, s')" and nf: "\<not> fallback opts"
  shows "\<exists>tr. trace s' = trace s @ Invoke site opts # tr \<and> invoked RegionlessRetry tr = []"
proof -
  let ?R = "\<lambda>opts s s'. \<not> fallback opts \<longrightarrow>
              (\<exists>tr. trace s' = trace s @ tr \<and> invoked RegionlessRetry tr = [])"
  have "?R opts (enter site opts s) s'"
  proof (rule scanImage_steps [where R = ?R, OF _ _ _ _ _ _ _ _ run])
    show "\<And>opts a b c. ?R opts a b \<Longrightarrow> ?R opts b c \<Longrightarrow> ?R opts a c"
      by (auto simp: invoked_append)
    show "\<And>opts wn s. ?R opts s (snd (createQrEngine wn s))"
      using createQrEngine_trace by blast
    show "\<And>opts e ty d s. ?R opts s (snd (postWorkerMessageSync e ty d s))"
      using postWorkerMessageSync_trace by blast
    show "\<And>opts cv s s'.
        ?R (capabilityRetryOptions opts cv) (enter CapabilityRetry (capabilityRetryOptions opts cv) s) s'
        \<Longrightarrow> ?R opts s s'"
      by (auto simp: enter_def invoked_append)
    show "\<And>opts e cv s s'. scanRegion opts \<noteq> None \<Longrightarrow> alsoTryWithoutScanRegion opts \<Longrightarrow>
        ?R (regionlessRetryOptions opts e cv) (enter RegionlessRetry (regionlessRetryOptions opts e cv) s) s'
        \<Longrightarrow> ?R opts s s'"
      by (simp add: fallback_def)
  qed simp_all
  with nf show ?thesis by (simp add: enter_def)
qed

lemma cleanup_invoked: "invoked c (trace (cleanup opts e s)) = invoked c (trace s)"
proof -
  from postWorkerMessageSync_trace [of e "''close''" NoData s c]
  show ?thesis by (auto simp: cleanup_def postWorkerMessage_def invoked_append)
qed

lemma tryBody_no_detector_eq:
  assumes nd: "no_detector opts s"
  shows "tryBody retry f inp opts s = tryBody retry' f inp opts s"
proof -
  obtain a t0 s1 where acq: "acquire f inp opts s = ((a, t0), s1)"
    by (cases "acquire f inp opts s") auto
  show ?thesis
  proof (cases a)
    case (Inl err)
    with acq show ?thesis by (simp add: tryBody_acquire_fails)
  next
    case (Inr p)
    obtain e img where p: "p = (e, img)" by (cases p)
    with acq Inr have acq': "acquire f inp opts s = ((Inr (e, img), t0), s1)" by simp
    from acquire_no_detector [OF nd acq'] obtain k where k: "e = Worker k" ..
    let ?cv = "drawToCanvas img (scanRegion opts) (canvas_opt opts) (disallowCanvasResizing opts)"
    obtain r t s2 where dw: "decodeWorker f opts k ?cv s1 = (Some r, t, s2)"
      by (rule decodeWorker_cases)
    from tryBody_worker [OF acq' [unfolded k] dw, of retry]
      tryBody_worker [OF acq' [unfolded k] dw, of retry']
    show ?thesis by simp
  qed
qed

lemma decodeDetector_cases:
  assumes "decodeDetector retry f opts cv s = Some (x, s')"
  shows "s' = s\<lparr>trace := trace s @ [TimerArmed (deadline opts)]\<rparr>
       \<or> (\<exists>r t. retry (capabilityRetryOptions opts cv)
                    (s\<lparr>trace := trace s @ [TimerArmed (deadline opts)], disableBarcodeDetector := True\<rparr>)
                  = Some (r, t, s'))"
  using assms
  by (auto simp: decodeDetector_def Let_def split: detect_outcome.splits if_splits option.splits)

lemma cleanup_trace: "\<exists>tr. trace (cleanup opts e s) = trace s @ tr \<and> invoked c tr = []"
proof (cases "qrEngine opts = None")
  case True
  with postWorkerMessageSync_trace [of e "''close''" NoData s c] show ?thesis
    by (auto simp: cleanup_def postWorkerMessage_def)
next
  case False
  then show ?thesis by (auto simp: cleanup_def)
qed

text \<open>The \<^verbatim>\<open>try\<close> block of a call that cannot reach the detector calls no retry.\<close>

lemma tryBody_no_detector_trace:
  assumes nd: "no_detector opts s"
    and tb: "tryBody retry f inp opts s = Some (r, t, s1, e, cv)"
  shows "\<exists>tr. trace s1 = trace s @ tr \<and> invoked c tr = []"
proof -
  let ?R = "\<lambda>s s'. \<exists>tr. trace s' = trace s @ tr \<and> invoked c tr = []"
  from tb tryBody_no_detector_eq [OF nd, of retry f inp "\<lambda>_ _. None"]
  have tb': "tryBody (\<lambda>_ _. None) f inp opts s = Some (r, t, s1, e, cv)" by simp
  show ?thesis
  proof (rule tryBody_steps [where R = ?R, OF _ _ _ _ _ _ _ tb'])
    show "\<And>a b c. ?R a b \<Longrightarrow> ?R b c \<Longrightarrow> ?R a c"
      by (auto simp: invoked_append)
    show "\<And>wn s. ?R s (snd (createQrEngine wn s))"
      using createQrEngine_trace by blast
    show "\<And>e ty d s. ?R s (snd (postWorkerMessageSync e ty d s))"
      using postWorkerMessageSync_trace by blast
  qed simp_all
qed

lemma regionless_count_no_detector:
  assumes nd: "no_detector opts s"
    and run: "scanImage n w site inp opts s = Some (r, t, s')"
  shows "\<exists>tr. trace s' = trace s @ Invoke site opts # tr \<and> length (invoked RegionlessRetry tr) \<le> 1"
proof (cases n)
  case 0
  with run show ?thesis by simp
next
  case (Suc m)
  let ?retry = "scanImage m w CapabilityRetry inp"
  from run Suc obtain r1 t1 s1 e cv where
    tb: "tryBody ?retry (w (calls s)) inp opts (enter site opts s) = Some (r1, t1, s1, e, cv)"
    by (auto simp: scanImage.simps(2) split: option.splits)
  have "no_detector opts (enter site opts s)" using nd by simp
  from tryBody_no_detector_trace [OF this tb, of RegionlessRetry] obtain tr1 where
    tr1: "trace s1 = trace s @ Invoke site opts # tr1" "invoked RegionlessRetry tr1 = []"
    by (auto simp: enter_def)
  show ?thesis
  proof (cases "(\<exists>err. r1 = Inl err) \<and> fallback opts")
    case False
    have "s' = cleanup opts e s1"
    proof (cases r1)
      case (Inl err)
      with False have nf: "scanRegion opts = None \<or> \<not> alsoTryWithoutScanRegion opts"
        by (auto simp: fallback_def)
      from scanImage_rejects [OF tb [unfolded Inl] nf] run Suc show ?thesis by simp
    next
      case (Inr res)
      from scanImage_resolves [OF tb [unfolded Inr]] run Suc show ?thesis by simp
    qed
    with cleanup_trace [of opts e s1 RegionlessRetry] obtain tr where
      "trace s' = trace s1 @ tr" "invoked RegionlessRetry tr = []" by auto
    with tr1 show ?thesis by (auto simp: invoked_append)
  next
    case True
    then obtain err where r1: "r1 = Inl err"
      and fb: "scanRegion opts \<noteq> None" "alsoTryWithoutScanRegion opts"
      by (auto simp: fallback_def)
    from scanImage_falls_back [OF tb [unfolded r1] fb] run Suc obtain r2 t2 s2 where
      rr: "scanImage m w RegionlessRetry inp (regionlessRetryOptions opts e cv) s1 = Some (r2, t2, s2)"
      and s': "s' = cleanup opts e s2"
      by (auto split: option.splits)
    from no_regionless_inside [OF rr] obtain tr2 where
      tr2: "trace s2 = trace s1 @ Invoke RegionlessRetry (regionlessRetryOptions opts e cv) # tr2"
        "invoked RegionlessRetry tr2 = []"
      by auto
    from s' cleanup_trace [of opts e s2 RegionlessRetry]
    obtain tr3 where tr3: "trace s' = trace s2 @ tr3" "invoked RegionlessRetry tr3 = []" by auto
    from tr1 tr2 tr3 show ?thesis by (auto simp: invoked_append)
  qed
qed


lemma acquire_trace: "\<exists>tr. trace (snd (acquire f inp opts s)) = trace s @ tr \<and> invoked c tr = []"
proof (rule acquire_steps [where R = "\<lambda>s s'. \<exists>tr. trace s' = trace s @ tr \<and> invoked c tr = []"])
  show "\<And>wn s. \<exists>tr. trace (snd (createQrEngine wn s)) = trace s @ tr \<and> invoked c tr = []"
    using createQrEngine_trace by blast
qed simp

lemma decodeWorker_trace:
  "\<exists>tr. trace (snd (snd (decodeWorker f opts k cv s))) = trace s @ tr \<and> invoked c tr = []"
proof (rule decodeWorker_steps [where R = "\<lambda>s s'. \<exists>tr. trace s' = trace s @ tr \<and> invoked c tr = []"])
  show "\<And>e ty d s. \<exists>tr. trace (snd (postWorkerMessageSync e ty d s)) = trace s @ tr \<and> invoked c tr = []"
    using postWorkerMessageSync_trace by blast
qed (auto simp: invoked_append)

text \<open>
  The \<^verbatim>\<open>try\<close> block of any call contains at most one region-less retry: the one a
  capability retry may make.
\<close>

lemma tryBody_regionless_count:
  assumes tb: "tryBody (scanImage n w CapabilityRetry inp) f inp opts s = Some (r, t, s1, e, cv)"
  shows "\<exists>tr. trace s1 = trace s @ tr \<and> length (invoked RegionlessRetry tr) \<le> 1"
proof -
  let ?retry = "scanImage n w CapabilityRetry inp"
  obtain a t0 sa where acq: "acquire f inp opts s = ((a, t0), sa)"
    by (cases "acquire f inp opts s") auto
  from acquire_trace [of f inp opts s RegionlessRetry] acq obtain tra where
    tra: "trace sa = trace s @ tra" "invoked RegionlessRetry tra = []" by auto
  show ?thesis
  proof (cases a)
    case (Inl err)
    with acq tb have "s1 = sa" by (simp add: tryBody_acquire_fails)
    with tra show ?thesis by auto
  next
    case (Inr p)
    obtain eng img where p: "p = (eng, img)" by (cases p)
    let ?cv = "drawToCanvas img (scanRegion opts) (canvas_opt opts) (disallowCanvasResizing opts)"
    show ?thesis
    proof (cases eng)
      case (Worker k)
      obtain r' t' s2 where dw: "decodeWorker f opts k ?cv sa = (Some r', t', s2)"
        by (rule decodeWorker_cases)
      have acq': "acquire f inp opts s = ((Inr (Worker k, img), t0), sa)"
        using acq Inr p Worker by simp
      from tryBody_worker [OF acq' dw, of ?retry] tb have "s1 = s2" by simp
      with decodeWorker_trace [of f opts k ?cv sa RegionlessRetry] dw obtain trb where
        "trace s1 = trace sa @ trb" "invoked RegionlessRetry trb = []" by auto
      with tra show ?thesis by (auto simp: invoked_append)
    next
      case (BarcodeDetector k)
      have acq': "acquire f inp opts s = ((Inr (BarcodeDetector k, img), t0), sa)"
        using acq Inr p BarcodeDetector by simp
      from tb obtain x where dd: "decodeDetector ?retry f opts ?cv sa = Some (x, s1)"
        unfolding tryBody_detector [OF acq'] by (auto split: option.splits prod.splits)
      let ?sf = "sa\<lparr>trace := trace sa @ [TimerArmed (deadline opts)], disableBarcodeDetector := True\<rparr>"
      from decodeDetector_cases [OF dd] show ?thesis
      proof
        assume "s1 = sa\<lparr>trace := trace sa @ [TimerArmed (deadline opts)]\<rparr>"
        with tra show ?thesis by (auto simp: invoked_append)
      next
        assume "\<exists>r t. ?retry (capabilityRetryOptions opts ?cv) ?sf = Some (r, t, s1)"
        then obtain r' t' where rr: "?retry (capabilityRetryOptions opts ?cv) ?sf = Some (r', t', s1)"
          by blast
        have "no_detector (capabilityRetryOptions opts ?cv) ?sf"
          by (rule no_detector_capabilityRetry) simp
        from regionless_count_no_detector [OF this rr] obtain trc where
          "trace s1 = trace ?sf @ Invoke CapabilityRetry (capabilityRetryOptions opts ?cv) # trc"
          "length (invoked RegionlessRetry trc) \<le> 1" by blast
        with tra show ?thesis by (auto simp: invoked_append)
      qed
    qed
  qed
qed

text \<open>A call contains at most two region-less retries, its own and that of a capability retry.\<close>

lemma regionless_count:
  assumes run: "scanImage n w site inp opts s = Some (r, t, s')"
  shows "\<exists>tr. trace s' = trace s @ Invoke site opts # tr \<and> length (invoked RegionlessRetry tr) \<le> 2"
proof (cases n)
  case 0
  with run show ?thesis by simp
next
  case (Suc m)
  let ?retry = "scanImage m w CapabilityRetry inp"
  from run Suc obtain r1 t1 s1 e cv where
    tb: "tryBody ?retry (w (calls s)) inp opts (enter site opts s) = Some (r1, t1, s1, e, cv)"
    by (auto simp: scanImage.simps(2) split: option.splits)
  from tryBody_regionless_count [OF tb] obtain tr1 where
    tr1: "trace s1 = trace s @ Invoke site opts # tr1" "length (invoked RegionlessRetry tr1) \<le> 1"
    by (auto simp: enter_def)
  show ?thesis
  proof (cases "(\<exists>err. r1 = Inl err) \<and> fallback opts")
    case False
    have "s' = cleanup opts e s1"
    proof (cases r1)
      case (Inl err)
      with False have nf: "scanRegion opts = None \<or> \<not> alsoTryWithoutScanRegion opts"
        by (auto simp: fallback_def)
      from scanImage_rejects [OF tb [unfolded Inl] nf] run Suc show ?thesis by simp
    next
      case (Inr res)
      from scanImage_resolves [OF tb [unfolded Inr]] run Suc show ?thesis by simp
    qed
    with cleanup_trace [of opts e s1 RegionlessRetry] obtain tr where
      "trace s' = trace s1 @ tr" "invoked RegionlessRetry tr = []" by auto
    with tr1 show ?thesis by (auto simp: invoked_append)
  next
    case True
    then obtain err where r1: "r1 = Inl err"
      and fb: "scanRegion opts \<noteq> None" "alsoTryWithoutScanRegion opts"
      by (auto simp: fallback_def)
    from scanImage_falls_back [OF tb [unfolded r1] fb] run Suc obtain r2 t2 s2 where
      rr: "scanImage m w RegionlessRetry inp (regionlessRetryOptions opts e cv) s1 = Some (r2, t2, s2)"
      and s': "s' = cleanup opts e s2"
      by (auto split: option.splits)
    from no_regionless_inside [OF rr] obtain tr2 where
      tr2: "trace s2 = trace s1 @ Invoke RegionlessRetry (regionlessRetryOptions opts e cv) # tr2"
        "invoked RegionlessRetry tr2 = []"
      by auto
    from s' cleanup_trace [of opts e s2 RegionlessRetry]
    obtain tr3 where tr3: "trace s' = trace s2 @ tr3" "invoked RegionlessRetry tr3 = []" by auto
    from tr1 tr2 tr3 show ?thesis by (auto simp: invoked_append)
  qed
qed


text \<open>
  Claim C5, as amended. Take a call with a region and \<^verbatim>\<open>alsoTryWithoutScanRegion\<close> whose
  \<^verbatim>\<open>try\<close> block rejects. The call itself then makes exactly one region-less retry:
  its options carry no region and no fallback flag, it returns, it contains no
  region-less retry of its own at any depth, and whatever it settles with, a rejection
  included, is what the call settles with. The \<^verbatim>\<open>try\<close> block may have held a
  capability retry, which carries the region and the flag and makes a region-less retry
  of its own; so the whole call contains at most two region-less retries, and it returns
  within three nested calls.
\<close>

theorem regionless_retry_once:
  assumes region: "scanRegion opts \<noteq> None" and retry: "alsoTryWithoutScanRegion opts"
    and first: "tryBody (scanImage (Suc (Suc n)) w CapabilityRetry inp) (w (calls s)) inp opts
                  (enter site opts s) = Some (Inl err, t, s1, e, cv)"
  shows "scanRegion (regionlessRetryOptions opts e cv) = None
       \<and> \<not> alsoTryWithoutScanRegion (regionlessRetryOptions opts e cv)
       \<and> (\<exists>r' t' s2 tr tr'.
            scanImage (Suc (Suc n)) w RegionlessRetry inp (regionlessRetryOptions opts e cv) s1
              = Some (r', t', s2)
            \<and> trace s2 = trace s1 @ Invoke RegionlessRetry (regionlessRetryOptions opts e cv) # tr
            \<and> invoked RegionlessRetry tr = []
            \<and> scanImage (Suc (Suc (Suc n))) w site inp opts s = Some (r', t + t', cleanup opts e s2)
            \<and> invoked RegionlessRetry (trace (cleanup opts e s2))
                = invoked RegionlessRetry (trace s1) @ [regionlessRetryOptions opts e cv]
            \<and> trace (cleanup opts e s2) = trace s @ Invoke site opts # tr'
            \<and> length (invoked RegionlessRetry tr') \<le> 2)"
proof -
  let ?o = "regionlessRetryOptions opts e cv"
  from scanImage_total_2b [of ?o n w RegionlessRetry inp s1]
  obtain y where "scanImage (Suc (Suc n)) w RegionlessRetry inp ?o s1 = Some y" by auto
  moreover obtain r' t' s2 where "y = (r', t', s2)" by (cases y)
  ultimately have rr: "scanImage (Suc (Suc n)) w RegionlessRetry inp ?o s1 = Some (r', t', s2)" by simp
  from no_regionless_inside [OF rr] obtain tr where
    tr: "trace s2 = trace s1 @ Invoke RegionlessRetry ?o # tr" "invoked RegionlessRetry tr = []"
    by auto
  have out: "scanImage (Suc (Suc (Suc n))) w site inp opts s = Some (r', t + t', cleanup opts e s2)"
    using scanImage_falls_back [OF first region retry] rr by simp
  from regionless_count [OF out] obtain tr' where
    tr': "trace (cleanup opts e s2) = trace s @ Invoke site opts # tr'"
      "length (invoked RegionlessRetry tr') \<le> 2" by blast
  have "invoked RegionlessRetry (trace (cleanup opts e s2)) = invoked RegionlessRetry (trace s1) @ [?o]"
    using tr by (simp add: cleanup_invoked invoked_append)
  with rr tr out tr' show ?thesis
    by (auto simp: regionlessRetryOptions_def)
qed

theorem regionless_retry_once_witness:
  "\<exists>r t s'. scanImage (Suc (Suc (Suc 0)))
       (first_then (worker_frame [(7, MessageEvent 1 None)]) (worker_frame [(9, MessageEvent 2 None)]))
       Caller (Drawable example_image)
       (no_options\<lparr>scanRegion := Some example_region, alsoTryWithoutScanRegion := True\<rparr>)
       initial_state = Some (r, t, s')
     \<and> length (invoked RegionlessRetry (trace s')) = 1"
proof -
  let ?w = "first_then (worker_frame [(7, MessageEvent 1 None)]) (worker_frame [(9, MessageEvent 2 None)])"
  let ?opts = "no_options\<lparr>scanRegion := Some example_region, alsoTryWithoutScanRegion := True\<rparr>"
  have region: "scanRegion ?opts \<noteq> None" and retry: "alsoTryWithoutScanRegion ?opts"
    by simp_all
  have "\<exists>t s1 e cv.
          tryBody (scanImage (Suc (Suc 0)) ?w CapabilityRetry (Drawable example_image))
            (?w (calls initial_state)) (Drawable example_image) ?opts (enter Caller ?opts initial_state)
            = Some (Inl (JsString ''No QR code found''), t, s1, e, cv)
          \<and> invoked RegionlessRetry (trace s1) = []"
    by (simp add: run_defs example_defs model_defs)
  then obtain t s1 e cv where
    first: "tryBody (scanImage (Suc (Suc 0)) ?w CapabilityRetry (Drawable example_image))
            (?w (calls initial_state)) (Drawable example_image) ?opts (enter Caller ?opts initial_state)
            = Some (Inl (JsString ''No QR code found''), t, s1, e, cv)"
    and none: "invoked RegionlessRetry (trace s1) = []"
    by blast
  from regionless_retry_once [OF region retry first] none show ?thesis
    by auto
qed

text \<open>
  Claim C5 as stated fails on the native-detector path. Below \<^verbatim>\<open>detect\<close> rejects with
  \<open>not implemented\<close> and every worker answers that there is no code. The capability retry
  of the first call carries region and flag and makes a region-less retry; both fail, and
  the first call makes its own region-less retry, on the detector it was given, which
  makes a capability retry again. That is two region-less retries in five calls of
  \<^verbatim>\<open>scanImage\<close>, nested three deep: with room for two nested calls only, the run does
  not come to an end.
\<close>

theorem two_regionless_retries_counterexample:
  "map_option (length \<circ> invoked RegionlessRetry \<circ> trace \<circ> snd \<circ> snd)
     (scanImage (Suc (Suc (Suc 0)))
        (always (native_frame (DetectRejects 4 (JsError ''NotSupportedError'' ''not implemented''))
           [(7, MessageEvent 1 None), (7, MessageEvent 2 None), (7, MessageEvent 5 None)]))
        Caller (Drawable example_image)
        (no_options\<lparr>scanRegion := Some example_region, alsoTryWithoutScanRegion := True\<rparr>)
        initial_state) = Some 2
   \<and> map_option (calls \<circ> snd \<circ> snd)
     (scanImage (Suc (Suc (Suc 0)))
        (always (native_frame (DetectRejects 4 (JsError ''NotSupportedError'' ''not implemented''))
           [(7, MessageEvent 1 None), (7, MessageEvent 2 None), (7, MessageEvent 5 None)]))
        Caller (Drawable example_image)
        (no_options\<lparr>scanRegion := Some example_region, alsoTryWithoutScanRegion := True\<rparr>)
        initial_state) = Some 5
   \<and> scanImage (Suc (Suc 0))
        (always (native_frame (DetectRejects 4 (JsError ''NotSupportedError'' ''not implemented''))
           [(7, MessageEvent 1 None), (7, MessageEvent 2 None), (7, MessageEvent 5 None)]))
        Caller (Drawable example_image)
        (no_options\<lparr>scanRegion := Some example_region, alsoTryWithoutScanRegion := True\<rparr>)
        initial_state = None"
  by (simp add: run_defs example_defs model_defs)

section \<open>The deadline of a retry\<close>

lemma createQrEngine_events:
  "\<exists>tr. trace (snd (createQrEngine wn s)) = trace s @ tr
        \<and> list_all retry_without_timeout tr \<and> list_all default_timer tr"
proof -
  obtain e s' where c: "createQrEngine wn s = (e, s')" by (cases "createQrEngine wn s")
  from createQrEngine_state [OF c] show ?thesis
    by (auto simp: c retry_without_timeout_def default_timer_def)
qed

lemma postWorkerMessageSync_events:
  "\<exists>tr. trace (snd (postWorkerMessageSync e ty d s)) = trace s @ tr
        \<and> list_all retry_without_timeout tr \<and> list_all default_timer tr"
proof -
  obtain i s' where c: "postWorkerMessageSync e ty d s = (i, s')"
    by (cases "postWorkerMessageSync e ty d s")
  from postWorkerMessageSync_state [OF c] show ?thesis
    by (auto simp: c retry_without_timeout_def default_timer_def)
qed

lemma deadline_default: "timeout opts = None \<Longrightarrow> deadline opts = 10000"
  by (simp add: deadline_def)

lemma retries_without_timeout:
  assumes run: "scanImage n w site inp opts s = Some (r, t, s')"
  shows "\<exists>tr. trace s' = trace s @ Invoke site opts # tr \<and> list_all retry_without_timeout tr"
proof -
  let ?R = "\<lambda>(opts::options) s s'. \<exists>tr. trace s' = trace s @ tr \<and> list_all retry_without_timeout tr"
  have "?R opts (enter site opts s) s'"
  proof (rule scanImage_steps [where R = ?R, OF _ _ _ _ _ _ _ _ run])
    show "\<And>opts a b c. ?R opts a b \<Longrightarrow> ?R opts b c \<Longrightarrow> ?R opts a c"
      by auto
    show "\<And>opts wn s. ?R opts s (snd (createQrEngine wn s))"
      using createQrEngine_events by blast
    show "\<And>opts e ty d s. ?R opts s (snd (postWorkerMessageSync e ty d s))"
      using postWorkerMessageSync_events by blast
    show "\<And>opts cv s s'.
        ?R (capabilityRetryOptions opts cv) (enter CapabilityRetry (capabilityRetryOptions opts cv) s) s'
        \<Longrightarrow> ?R opts s s'"
      by (auto simp: enter_def retry_without_timeout_def capabilityRetryOptions_def deadline_def)
    show "\<And>opts e cv s s'. scanRegion opts \<noteq> None \<Longrightarrow> alsoTryWithoutScanRegion opts \<Longrightarrow>
        ?R (regionlessRetryOptions opts e cv) (enter RegionlessRetry (regionlessRetryOptions opts e cv) s) s'
        \<Longrightarrow> ?R opts s s'"
      by (auto simp: enter_def retry_without_timeout_def regionlessRetryOptions_def deadline_def)
  qed (simp_all add: retry_without_timeout_def)
  then show ?thesis by (simp add: enter_def)
qed

lemma default_timers:
  assumes run: "scanImage n w site inp opts s = Some (r, t, s')" and none: "timeout opts = None"
  shows "\<exists>tr. trace s' = trace s @ Invoke site opts # tr \<and> list_all default_timer tr"
proof -
  let ?R = "\<lambda>opts s s'. timeout opts = None \<longrightarrow>
              (\<exists>tr. trace s' = trace s @ tr \<and> list_all default_timer tr)"
  have "?R opts (enter site opts s) s'"
  proof (rule scanImage_steps [where R = ?R, OF _ _ _ _ _ _ _ _ run])
    show "\<And>opts a b c. ?R opts a b \<Longrightarrow> ?R opts b c \<Longrightarrow> ?R opts a c"
      by auto
    show "\<And>opts wn s. ?R opts s (snd (createQrEngine wn s))"
      using createQrEngine_events by blast
    show "\<And>opts e ty d s. ?R opts s (snd (postWorkerMessageSync e ty d s))"
      using postWorkerMessageSync_events by blast
    show "\<And>opts s. ?R opts s (s\<lparr>trace := trace s @ [TimerArmed (deadline opts)]\<rparr>)"
      by (simp add: default_timer_def deadline_default)
    show "\<And>opts cv s s'.
        ?R (capabilityRetryOptions opts cv) (enter CapabilityRetry (capabilityRetryOptions opts cv) s) s'
        \<Longrightarrow> ?R opts s s'"
      by (auto simp: enter_def default_timer_def capabilityRetryOptions_def)
    show "\<And>opts e cv s s'. scanRegion opts \<noteq> None \<Longrightarrow> alsoTryWithoutScanRegion opts \<Longrightarrow>
        ?R (regionlessRetryOptions opts e cv) (enter RegionlessRetry (regionlessRetryOptions opts e cv) s) s'
        \<Longrightarrow> ?R opts s s'"
      by (auto simp: enter_def default_timer_def regionlessRetryOptions_def)
  qed simp_all
  with none show ?thesis by (simp add: enter_def)
qed

section \<open>The capability retry\<close>

lemma cleanup_flag [simp]:
  "disableBarcodeDetector (cleanup opts e s) = disableBarcodeDetector s"
proof -
  obtain i s' where c: "postWorkerMessageSync e ''close'' NoData s = (i, s')"
    by (cases "postWorkerMessageSync e ''close'' NoData s")
  from postWorkerMessageSync_state [OF c] show ?thesis
    by (auto simp: cleanup_def postWorkerMessage_def c)
qed

lemma scanImage_flag_after_try:
  assumes tb: "tryBody (scanImage n w CapabilityRetry inp) (w (calls s)) inp opts (enter site opts s)
                 = Some (r, t, s1, e, cv)"
    and run: "scanImage (Suc n) w site inp opts s = Some (r', t', s')"
    and flag: "disableBarcodeDetector s1"
  shows "disableBarcodeDetector s'"
proof (cases "(\<exists>err. r = Inl err) \<and> fallback opts")
  case False
  show ?thesis
  proof (cases r)
    case (Inl err)
    with False have nf: "scanRegion opts = None \<or> \<not> alsoTryWithoutScanRegion opts"
      by (auto simp: fallback_def)
    from scanImage_rejects [OF tb [unfolded Inl] nf] run flag show ?thesis by auto
  next
    case (Inr res)
    from scanImage_resolves [OF tb [unfolded Inr]] run flag show ?thesis by auto
  qed
next
  case True
  then obtain err where r: "r = Inl err" and fb: "scanRegion opts \<noteq> None" "alsoTryWithoutScanRegion opts"
    by (auto simp: fallback_def)
  from scanImage_falls_back [OF tb [unfolded r] fb] run obtain r2 t2 s2 where
    rr: "scanImage n w RegionlessRetry inp (regionlessRetryOptions opts e cv) s1 = Some (r2, t2, s2)"
    and s': "s' = cleanup opts e s2"
    by (auto split: option.splits)
  from scanImage_keeps_flag [OF rr flag] s' show ?thesis by simp
qed

section \<open>Deadline and channel errors\<close>

lemma race_late: "T \<le> t \<Longrightarrow> race T (Some (r, t)) = (Inl (JsString ''Scanner error: timeout''), T)"
  by (simp add: race_def)

lemma decodeDetector_late:
  assumes late: "detect_late (deadline opts) (detect f)"
    and dd: "decodeDetector retry f opts cv s = Some ((r, t), s')"
  shows "r = Inl (JsString ''Scanner error: timeout'') \<and> t = deadline opts"
proof (cases "detect f")
  case (DetectResolves td found)
  with late have "deadline opts \<le> td" by (simp add: detect_late_def)
  with dd DetectResolves show ?thesis by (simp add: decodeDetector_def Let_def race_late)
next
  case DetectNever
  with dd show ?thesis by (simp add: decodeDetector_def Let_def race_def)
next
  case (DetectRejects td e)
  with late have le: "deadline opts \<le> td" by (simp add: detect_late_def)
  with dd DetectRejects show ?thesis by (simp add: decodeDetector_def Let_def race_def)
qed

lemma decodeWorker_timeout:
  assumes "list_all (other_id (decode_id opts s) (deadline opts))
             (takeWhile (\<lambda>tev. fst tev < deadline opts) (channel f))"
  shows "fst (decodeWorker f opts k cv s) = Some (Inl (JsString ''Scanner error: timeout''))"
proof -
  let ?p = "new_request (decode_id opts s) (deadline opts)"
  have "run_channel (deadline opts) (channel f) ?p = (fire_timer ?p, deadline opts)"
    by (rule run_channel_timeout [where T' = "deadline opts"]) (use assms in \<open>simp_all add: new_request_def\<close>)
  moreover have "settled (fire_timer ?p) = Some (Inl (JsString ''Scanner error: timeout''))"
    by (rule fire_timer_pending [where T = "deadline opts"]) (simp_all add: new_request_def)
  ultimately show ?thesis by (simp add: decodeWorker_outcome)
qed

lemma decodeWorker_error:
  assumes ch: "channel f = pre @ (t, ErrorEvent (Some m)) # rest"
    and pre: "list_all (other_id (decode_id opts s) (deadline opts)) pre"
    and t: "t < deadline opts" and m: "m \<noteq> []"
  shows "fst (decodeWorker f opts k cv s) = Some (Inl (JsString (''Scanner error: '' @ m)))"
proof -
  let ?p = "new_request (decode_id opts s) (deadline opts)"
  have "run_channel (deadline opts) (channel f) ?p
          = run_channel (deadline opts) ((t, ErrorEvent (Some m)) # rest) ?p"
    unfolding ch using pre by (intro run_channel_other_id) (simp_all add: new_request_def)
  moreover have "dispatch (ErrorEvent (Some m)) ?p = onError (ErrEvent (Some m)) ?p"
    by (simp add: dispatch_def new_request_def)
  moreover have "settled (onError (ErrEvent (Some m)) ?p) = Some (Inl (JsString (''Scanner error: '' @ m)))"
    using m by (simp add: onError_def settle_def teardown_def errorMessage_def new_request_def)
  ultimately show ?thesis using t by (simp add: decodeWorker_outcome Let_def)
qed

lemma scanImage_worker_rejects:
  assumes acq: "acquire (w (calls s)) inp opts (enter site opts s) = ((Inr (Worker k, img), t0), s1)"
    and out: "\<And>cv. fst (decodeWorker (w (calls s)) opts k cv s1) = Some (Inl err)"
    and nf: "\<not> fallback opts"
  shows "\<exists>t s'. scanImage (Suc n) w site inp opts s = Some (Inl err, t, s')"
proof -
  let ?cv = "drawToCanvas img (scanRegion opts) (canvas_opt opts) (disallowCanvasResizing opts)"
  obtain r' t' s2 where dw: "decodeWorker (w (calls s)) opts k ?cv s1 = (Some r', t', s2)"
    by (rule decodeWorker_cases)
  with out [of ?cv] have "r' = Inl err" by simp
  with tryBody_worker [OF acq dw] have
    "tryBody (scanImage n w CapabilityRetry inp) (w (calls s)) inp opts (enter site opts s)
       = Some (Inl err, t0 + t', s2, Some (Worker k), Some ?cv)" by simp
  from scanImage_rejects [OF this] nf show ?thesis by (auto simp: fallback_def)
qed

lemma scanImage_detector_late:
  assumes acq: "acquire (w (calls s)) inp opts (enter site opts s)
                  = ((Inr (BarcodeDetector k, img), t0), s1)"
    and late: "detect_late (deadline opts) (detect (w (calls s)))"
    and nf: "\<not> fallback opts"
  shows "\<exists>t s'. scanImage (Suc (Suc (Suc n))) w site inp opts s
                  = Some (Inl (JsString ''Scanner error: timeout''), t, s')"
proof -
  let ?retry = "scanImage (Suc (Suc n)) w CapabilityRetry inp"
  let ?cv = "drawToCanvas img (scanRegion opts) (canvas_opt opts) (disallowCanvasResizing opts)"
  have "\<exists>x. decodeDetector ?retry (w (calls s)) opts ?cv s1 = Some x"
  proof (rule decodeDetector_returns)
    fix s' :: state
    assume "disableBarcodeDetector s'"
    then show "\<exists>x. ?retry (capabilityRetryOptions opts ?cv) s' = Some x"
      by (intro scanImage_total_2a) (simp add: no_detector_capabilityRetry)
  qed
  then obtain x where "decodeDetector ?retry (w (calls s)) opts ?cv s1 = Some x" ..
  moreover obtain r t s2 where "x = ((r, t), s2)" by (cases x) auto
  ultimately have dd: "decodeDetector ?retry (w (calls s)) opts ?cv s1 = Some ((r, t), s2)" by simp
  from decodeDetector_late [OF late dd] have "r = Inl (JsString ''Scanner error: timeout'')" by simp
  with tryBody_detector [OF acq, of ?retry] dd have
    "tryBody ?retry (w (calls s)) inp opts (enter site opts s)
       = Some (Inl (JsString ''Scanner error: timeout''), t0 + t, s2, Some (BarcodeDetector k), Some ?cv)"
    by simp
  from scanImage_rejects [OF this] nf show ?thesis by (auto simp: fallback_def)
qed

section \<open>Engine selection and the environment probe\<close>

lemma createWorker_rejects: "fst (createWorker wn s) = Inl e \<Longrightarrow> workerModule wn = Some e"
  by (simp add: createWorker_def split: option.splits)

lemma useBarcodeDetector_rejects: "useBarcodeDetector wn s = Inl e \<Longrightarrow> getSupportedFormats wn = Inl e"
  by (simp add: useBarcodeDetector_def split: if_splits sum.splits)

lemma createQrEngine_rejects:
  assumes "fst (createQrEngine wn s) = Inl e"
  shows "getSupportedFormats wn = Inl e \<or> workerModule wn = Some e"
proof (cases "useBarcodeDetector wn s")
  case (Inl x)
  with assms have "x = e" by (simp add: createQrEngine_def)
  with Inl useBarcodeDetector_rejects show ?thesis by blast
next
  case (Inr use)
  with assms have "fst (createWorker wn s) = Inl e"
    by (simp add: createQrEngine_def split: if_splits)
  with createWorker_rejects show ?thesis by blast
qed

text \<open>
  Claim C9, as amended. The selection rejects only when \<^verbatim>\<open>getSupportedFormats\<close> or the
  import of the worker module rejects, never because the environment probe is absent or
  fails. When the probe is absent, that is, the navigator has no user agent data, and the
  native detector is usable, the native detector is built: the outcome is not biased
  towards the worker. When the probe is made (a Chromium brand on macOS) and its promise
  rejects, the environment counts as excluded: the selection is the creation of a worker,
  which gives a new worker when the module loads. A probe that resolves without
  architecture and version counts as excluded too.
\<close>

theorem probe_failure_selects_worker:
  "(fst (createQrEngine wn s) = Inl e \<longrightarrow> getSupportedFormats wn = Inl e \<or> workerModule wn = Some e)
   \<and> (useBarcodeDetector wn s = Inr True \<longrightarrow> navigator_userAgentData wn = None \<longrightarrow>
        fst (createQrEngine wn s) = Inr (BarcodeDetector (nextEngine s)))
   \<and> (useBarcodeDetector wn s = Inr True \<longrightarrow> navigator_userAgentData wn = Some u \<longrightarrow>
        list_ex (contains_i ''chromium'') (brands u) \<longrightarrow>
        contains_i ''macos'' (platform u) \<or> contains_i ''mac os'' (platform u) \<longrightarrow>
        getHighEntropyValues u = HevRejects \<or> getHighEntropyValues u = HevResolves None None \<longrightarrow>
        isChromiumOnMacWithArmVentura wn
        \<and> createQrEngine wn s = createWorker wn s
        \<and> (workerModule wn = None \<longrightarrow> fst (createQrEngine wn s) = Inr (Worker (nextEngine s))))"
proof -
  have 1: "fst (createQrEngine wn s) = Inl e \<longrightarrow> getSupportedFormats wn = Inl e \<or> workerModule wn = Some e"
    using createQrEngine_rejects by blast
  have 2: "useBarcodeDetector wn s = Inr True \<longrightarrow> navigator_userAgentData wn = None \<longrightarrow>
        fst (createQrEngine wn s) = Inr (BarcodeDetector (nextEngine s))"
    by (simp add: createQrEngine_def isChromiumOnMacWithArmVentura_def)
  have av: "armVentura HevRejects" "armVentura (HevResolves None None)"
    by (simp_all add: armVentura_def or_default_def contains_i_def parseInt_def is_space_def
        digit_of_def to_lower_def Let_def)
  have 3: "isChromiumOnMacWithArmVentura wn
        \<and> createQrEngine wn s = createWorker wn s
        \<and> (workerModule wn = None \<longrightarrow> fst (createQrEngine wn s) = Inr (Worker (nextEngine s)))"
    if "useBarcodeDetector wn s = Inr True" "navigator_userAgentData wn = Some u"
      "list_ex (contains_i ''chromium'') (brands u)"
      "contains_i ''macos'' (platform u) \<or> contains_i ''mac os'' (platform u)"
      "getHighEntropyValues u = HevRejects \<or> getHighEntropyValues u = HevResolves None None"
  proof -
    from that av have ex: "isChromiumOnMacWithArmVentura wn"
      by (auto simp: isChromiumOnMacWithArmVentura_def)
    with that(1) have "createQrEngine wn s = createWorker wn s"
      by (simp add: createQrEngine_def)
    with ex show ?thesis by (simp add: createWorker_def)
  qed
  from 1 2 3 show ?thesis by blast
qed

theorem probe_failure_selects_worker_witness:
  "fst (createQrEngine chromium_mac_window initial_state) = Inr (Worker 0)"
proof -
  let ?u = "\<lparr>brands = [''Not A(Brand'', ''Chromium''], platform = ''macOS'',
        getHighEntropyValues = HevRejects\<rparr>"
  have 1: "useBarcodeDetector chromium_mac_window initial_state = Inr True"
    by (simp add: useBarcodeDetector_def chromium_mac_window_def initial_state_def)
  have 2: "navigator_userAgentData chromium_mac_window = Some ?u"
    by (simp add: chromium_mac_window_def)
  have "contains_i ''chromium'' ''Chromium''" by code_simp
  then have 3: "list_ex (contains_i ''chromium'') (brands ?u)" by simp
  have "contains_i ''macos'' ''macOS''" by code_simp
  then have 4: "contains_i ''macos'' (platform ?u) \<or> contains_i ''mac os'' (platform ?u)" by simp
  have 5: "getHighEntropyValues ?u = HevRejects \<or> getHighEntropyValues ?u = HevResolves None None"
    by simp
  have 6: "workerModule chromium_mac_window = None" by (simp add: chromium_mac_window_def)
  from probe_failure_selects_worker [of chromium_mac_window initial_state _ ?u] 1 2 3 4 5 6
  have "fst (createQrEngine chromium_mac_window initial_state) = Inr (Worker (nextEngine initial_state))"
    by blast
  then show ?thesis by (simp add: initial_state_def)
qed

text \<open>
  Claim C9 as stated fails where the probe is absent: in a window that has the native
  detector with the format \<open>qr_code\<close> and a navigator without user agent data, the
  selection does not reject, but what it produces is the native detector, not a worker.
\<close>

theorem absent_probe_counterexample:
  "navigator_userAgentData native_window = None
   \<and> \<not> isChromiumOnMacWithArmVentura native_window
   \<and> createQrEngine native_window initial_state
     = (Inr (BarcodeDetector 0),
        initial_state\<lparr>nextEngine := 1, trace := [Created (BarcodeDetector 0)]\<rparr>)"
  by (simp add: createQrEngine_def useBarcodeDetector_def isChromiumOnMacWithArmVentura_def
      native_window_def initial_state_def)

section \<open>The cleanup\<close>

lemma cleanup_closes_worker:
  "qrEngine opts = None \<Longrightarrow>
   closes k (trace (cleanup opts (Some (Worker k)) s)) = Suc (closes k (trace s))"
  by (simp add: cleanup_def postWorkerMessage_def postWorkerMessageSync_def closes_append)

lemma cleanup_unassigned: "cleanup opts None s = s"
  by (simp add: cleanup_def postWorkerMessage_def postWorkerMessageSync_def)

lemma cleanup_external: "qrEngine opts \<noteq> None \<Longrightarrow> cleanup opts e s = s"
  by (auto simp: cleanup_def)

text \<open>
  Where the engine was acquired, the cleanup of a call that made it posts \<^verbatim>\<open>close\<close> to
  it once the call, retries included, is over.
\<close>

lemma scanImage_closes_acquired_worker:
  assumes own: "qrEngine opts = None"
    and acq: "acquire (w (calls s)) inp opts (enter site opts s) = ((Inr (Worker k, img), t0), s1)"
    and run: "scanImage (Suc n) w site inp opts s = Some (r, t, s')"
  shows "\<exists>s2. s' = cleanup opts (Some (Worker k)) s2
              \<and> closes k (trace s') = Suc (closes k (trace s2))"
proof -
  let ?cv = "drawToCanvas img (scanRegion opts) (canvas_opt opts) (disallowCanvasResizing opts)"
  obtain r1 t1 s2 where dw: "decodeWorker (w (calls s)) opts k ?cv s1 = (Some r1, t1, s2)"
    by (rule decodeWorker_cases)
  note tb = tryBody_worker [OF acq dw, of "scanImage n w CapabilityRetry inp"]
  have "\<exists>s2. s' = cleanup opts (Some (Worker k)) s2"
  proof (cases "(\<exists>err. r1 = Inl err) \<and> fallback opts")
    case False
    show ?thesis
    proof (cases r1)
      case (Inl err)
      with False have nf: "scanRegion opts = None \<or> \<not> alsoTryWithoutScanRegion opts"
        by (auto simp: fallback_def)
      from scanImage_rejects [OF tb [unfolded Inl] nf] run show ?thesis by auto
    next
      case (Inr res)
      from scanImage_resolves [OF tb [unfolded Inr]] run show ?thesis by auto
    qed
  next
    case True
    then obtain err where r1: "r1 = Inl err"
      and fb: "scanRegion opts \<noteq> None" "alsoTryWithoutScanRegion opts"
      by (auto simp: fallback_def)
    from scanImage_falls_back [OF tb [unfolded r1] fb] run show ?thesis
      by (auto split: option.splits)
  qed
  then obtain s2 where "s' = cleanup opts (Some (Worker k)) s2" ..
  with cleanup_closes_worker [OF own, of k s2] show ?thesis by auto
qed

text \<open>
  Claim C1 fails on the code. The call below names no engine; the selection builds worker
  0 while the input is of no supported type, so \<^verbatim>\<open>Promise.all\<close> rejects before
  \<^verbatim>\<open>qrEngine\<close> is assigned. The cleanup runs with \<^verbatim>\<open>qrEngine\<close> still undefined and posts
  nothing: the trace ends with the creation of the worker, and no \<^verbatim>\<open>close\<close> follows.
\<close>

theorem created_worker_not_closed:
  "scanImage (Suc (Suc (Suc 0))) (always (worker_frame [])) Caller UnsupportedInput no_options
     initial_state
   = Some (Inl (JsString ''Unsupported image type.''), 3,
       \<lparr>disableBarcodeDetector = False, workerMessageId = 0, calls = 1, nextEngine = 1,
        trace = [Invoke Caller no_options, Created (Worker 0)]\<rparr>)
   \<and> closes 0 [Invoke Caller no_options, Created (Worker 0)] = 0"
  by (simp add: run_defs example_defs model_defs)

section \<open>Retries and the caller's timeout\<close>

text \<open>
  Claim C10. Both retries are called with options that have no \<^verbatim>\<open>timeout\<close>, whatever
  the caller gave. Every call returns, and in its trace every call below it is a retry
  whose options have no timeout, so that its deadline is 10000 ms. And a call whose
  options have no timeout arms nothing but 10000 ms timers, in itself and in the calls
  below it. So each retry runs on the default deadline and not on the caller's value.
\<close>

theorem retries_drop_timeout:
  "timeout (capabilityRetryOptions opts cv) = None
   \<and> timeout (regionlessRetryOptions opts e cv') = None
   \<and> (\<exists>r t s' tr. scanImage (Suc (Suc (Suc n))) w site inp opts s = Some (r, t, s')
        \<and> trace s' = trace s @ Invoke site opts # tr
        \<and> list_all retry_without_timeout tr
        \<and> (timeout opts = None \<longrightarrow> list_all default_timer tr))"
proof -
  from scanImage_returns [of n w site inp opts s] obtain r t s' where
    run: "scanImage (Suc (Suc (Suc n))) w site inp opts s = Some (r, t, s')" by blast
  from retries_without_timeout [OF run] obtain tr where
    tr: "trace s' = trace s @ Invoke site opts # tr" "list_all retry_without_timeout tr" by blast
  have "list_all default_timer tr" if "timeout opts = None"
    using default_timers [OF run that] tr(1) by auto
  with run tr show ?thesis
    by (auto simp: capabilityRetryOptions_def regionlessRetryOptions_def)
qed

theorem retries_drop_timeout_witness:
  "\<exists>r t s' tr. scanImage (Suc (Suc (Suc 0)))
       (first_then (worker_frame [(7, MessageEvent 1 None)]) (worker_frame [(9, MessageEvent 2 None)]))
       Caller (Drawable example_image)
       (no_options\<lparr>scanRegion := Some example_region, alsoTryWithoutScanRegion := True,
          timeout := Some 5000\<rparr>)
       initial_state = Some (r, t, s')
     \<and> trace s' = Invoke Caller (no_options\<lparr>scanRegion := Some example_region,
            alsoTryWithoutScanRegion := True, timeout := Some 5000\<rparr>) # tr
     \<and> list_all retry_without_timeout tr
     \<and> invoked RegionlessRetry tr \<noteq> []
     \<and> TimerArmed 5000 \<in> set tr \<and> TimerArmed 10000 \<in> set tr"
proof -
  let ?w = "first_then (worker_frame [(7, MessageEvent 1 None)]) (worker_frame [(9, MessageEvent 2 None)])"
  let ?opts = "no_options\<lparr>scanRegion := Some example_region, alsoTryWithoutScanRegion := True,
                 timeout := Some 5000\<rparr>"
  have ev: "\<exists>r t s'. scanImage (Suc (Suc (Suc 0))) ?w Caller (Drawable example_image) ?opts initial_state
            = Some (r, t, s')
          \<and> invoked RegionlessRetry (trace s') \<noteq> []
          \<and> TimerArmed 5000 \<in> set (trace s') \<and> TimerArmed 10000 \<in> set (trace s')"
    by (simp add: run_defs example_defs model_defs)
  from retries_drop_timeout [of ?opts _ _ _ 0 ?w Caller "Drawable example_image" initial_state]
  obtain r t s' tr where
    run: "scanImage (Suc (Suc (Suc 0))) ?w Caller (Drawable example_image) ?opts initial_state
            = Some (r, t, s')"
    and tr: "trace s' = trace initial_state @ Invoke Caller ?opts # tr" "list_all retry_without_timeout tr"
    by blast
  from tr(1) have tr': "trace s' = Invoke Caller ?opts # tr" by (simp add: initial_state_def)
  from ev run tr' have "invoked RegionlessRetry tr \<noteq> []" "TimerArmed 5000 \<in> set tr" "TimerArmed 10000 \<in> set tr"
    by auto
  with run tr' tr(2) show ?thesis by blast
qed

section \<open>Correlation ids\<close>

text \<open>
  Claim C7, as amended. The ids of the messages posted are 0, 1, 2, ... in the order of
  posting as long as the counter stays below \<open>2^53\<close>: this holds at the start, and every
  call of \<^verbatim>\<open>scanImage\<close> returns, never lowers the counter, and, when it leaves the counter
  below \<open>2^53\<close>, keeps the ids in order, adding those from the old value of the counter
  up to the new one. So far the ids are strictly increasing and none is used twice. A
  message whose id is not the one the pending request waits for leaves the request as
  it is: unsettled, listeners attached, timer armed.
\<close>

theorem correlation_ids:
  assumes inv: "ids_in_order s"
  shows "ids_in_order initial_state
       \<and> (\<exists>r t s'. scanImage (Suc (Suc (Suc n))) w site inp opts s = Some (r, t, s')
            \<and> workerMessageId s \<le> workerMessageId s'
            \<and> (workerMessageId s' < 2 ^ 53 \<longrightarrow>
                 ids_in_order s'
                 \<and> posted_ids (trace s') = posted_ids (trace s) @ [workerMessageId s..<workerMessageId s']
                 \<and> sorted_wrt (<) (posted_ids (trace s'))
                 \<and> distinct (posted_ids (trace s'))))
       \<and> (i \<noteq> expectedResponseId p \<longrightarrow>
            onMessage i d p = p \<and> dispatch (MessageEvent i d) p = p)"
proof -
  from scanImage_returns [of n w site inp opts s] obtain r t s' where
    run: "scanImage (Suc (Suc (Suc n))) w site inp opts s = Some (r, t, s')" by blast
  from scanImage_ids [OF run] inv have 2: "workerMessageId s \<le> workerMessageId s'"
    and 1: "workerMessageId s' < 2 ^ 53 \<longrightarrow> ids_in_order s'"
    by simp_all
  have split: "[0..<workerMessageId s'] = [0..<workerMessageId s] @ [workerMessageId s..<workerMessageId s']"
    using 2 by (metis le_add_diff_inverse upt_add_eq_append zero_le)
  have 4: "ids_in_order s'
       \<and> posted_ids (trace s') = posted_ids (trace s) @ [workerMessageId s..<workerMessageId s']
       \<and> sorted_wrt (<) (posted_ids (trace s')) \<and> distinct (posted_ids (trace s'))"
    if "workerMessageId s' < 2 ^ 53"
  proof -
    from 1 that have a: "ids_in_order s'" by simp
    then have 3: "posted_ids (trace s') = [0..<workerMessageId s']" by (simp add: ids_in_order_def)
    with inv split have b: "posted_ids (trace s') = posted_ids (trace s) @ [workerMessageId s..<workerMessageId s']"
      by (simp add: ids_in_order_def)
    have "sorted_wrt (<) (posted_ids (trace s'))" "distinct (posted_ids (trace s'))"
      unfolding 3 by simp_all
    with a b show ?thesis by simp
  qed
  have 6: "ids_in_order initial_state" by (simp add: ids_in_order_def initial_state_def)
  have 7: "i \<noteq> expectedResponseId p \<longrightarrow> onMessage i d p = p \<and> dispatch (MessageEvent i d) p = p"
    by (simp add: onMessage_def dispatch_def)
  from run 2 4 6 7 show ?thesis by blast
qed

lemma scanImage_worker_example:
  "scanImage (Suc (Suc (Suc 0)))
      (always (worker_frame [(2, MessageEvent 0 (Some ''STALE'')), (7, MessageEvent 1 (Some ''HELLO''))]))
      Caller (Drawable example_image) no_options initial_state
   = Some (Inr \<lparr>data = ''HELLO''\<rparr>, 12,
       \<lparr>disableBarcodeDetector = False, workerMessageId = 3, calls = 1, nextEngine = 1,
        trace = [Invoke Caller no_options, Created (Worker 0),
          Posted 0 \<lparr>msg_id = 0, msg_type = ''inversionMode'', msg_data = StrData ''both''\<rparr>,
          TimerArmed 10000,
          Posted 0 \<lparr>msg_id = 1, msg_type = ''decode'',
            msg_data = ImageData \<lparr>canvas_width = 10, canvas_height = 20,
              content = [DrawImage example_image 0 0 10 20 0 0 10 20]\<rparr>\<rparr>,
          Posted 0 \<lparr>msg_id = 2, msg_type = ''close'', msg_data = NoData\<rparr>]\<rparr>)"
  by (simp add: run_defs example_defs model_defs)

theorem correlation_ids_witness:
  "\<exists>r t s'. scanImage (Suc (Suc (Suc 0)))
      (always (worker_frame [(2, MessageEvent 0 (Some ''STALE'')), (7, MessageEvent 1 (Some ''HELLO''))]))
      Caller (Drawable example_image) no_options initial_state = Some (r, t, s')
     \<and> posted_ids (trace s') = [0, 1, 2]
     \<and> dispatch (MessageEvent 0 (Some ''STALE'')) (new_request 1 10000) = new_request 1 10000"
proof -
  let ?w = "always (worker_frame [(2, MessageEvent 0 (Some ''STALE'')), (7, MessageEvent 1 (Some ''HELLO''))])"
  have inv: "ids_in_order initial_state" by (simp add: ids_in_order_def initial_state_def)
  from correlation_ids [OF inv, of 0 ?w Caller "Drawable example_image" no_options 0
      "new_request 1 10000" "Some ''STALE''"]
  obtain r t s' where
    run: "scanImage (Suc (Suc (Suc 0))) ?w Caller (Drawable example_image) no_options initial_state
            = Some (r, t, s')"
    and ids: "workerMessageId s' < 2 ^ 53 \<longrightarrow> posted_ids (trace s')
                = posted_ids (trace initial_state) @ [workerMessageId initial_state..<workerMessageId s']"
    and B: "dispatch (MessageEvent 0 (Some ''STALE'')) (new_request 1 10000) = new_request 1 10000"
    by (auto simp: new_request_def)
  from run scanImage_worker_example have "workerMessageId s' = 3" by auto
  with ids have "posted_ids (trace s') = [0, 1, 2]"
    by (simp add: initial_state_def upt_conv_Cons)
  with run B show ?thesis by blast
qed

text \<open>
  Claim C7 as stated fails at the end of the exact range of the counter. In a process
  that has posted \<open>2^53\<close> messages the counter no longer changes, and the three messages
  of the next call all carry the id \<open>2^53\<close>.
\<close>

theorem counter_stuck_counterexample:
  "map_option (posted_ids \<circ> trace \<circ> snd \<circ> snd)
     (scanImage (Suc (Suc (Suc 0)))
        (always (worker_frame [(7, MessageEvent (2 ^ 53) (Some ''HELLO''))]))
        Caller (Drawable example_image) no_options
        (initial_state\<lparr>workerMessageId := 2 ^ 53\<rparr>))
   = Some [2 ^ 53, 2 ^ 53, 2 ^ 53]"
  by (simp add: run_defs example_defs model_defs)

section \<open>The capability downgrade\<close>

text \<open>
  Claim C4, as amended. On the native-detector path let \<^verbatim>\<open>detect\<close> reject before the
  deadline with a message that contains \<open>not implemented\<close> or \<open>service unavailable\<close> in
  exactly this spelling. Then the flag is set and the scan is called again with the
  options of lines 140-145, which name no engine; this retry returns and the flag is
  still set after it; its outcome is the outcome of the decode step unless the timer of
  the first call comes first. The call itself returns with the flag set. Under the flag
  the selection is the creation of a worker, so a call that is given no engine gets a
  worker or no engine at all, and no later call clears the flag.
\<close>

theorem capability_retry:
  assumes acq: "acquire (w (calls s)) inp opts (enter site opts s)
                  = ((Inr (BarcodeDetector k, img), t0), s1)"
    and det: "detect (w (calls s)) = DetectRejects td err"
    and time: "td < deadline opts"
    and cap: "contains ''not implemented'' (thrown_message err)
              \<or> contains ''service unavailable'' (thrown_message err)"
    and cv: "cv = drawToCanvas img (scanRegion opts) (canvas_opt opts) (disallowCanvasResizing opts)"
    and s2: "s2 = s1\<lparr>trace := trace s1 @ [TimerArmed (deadline opts)], disableBarcodeDetector := True\<rparr>"
  shows "qrEngine (capabilityRetryOptions opts cv) = None
       \<and> (\<exists>r' t' s3.
            scanImage (Suc (Suc n)) w CapabilityRetry inp (capabilityRetryOptions opts cv) s2
              = Some (r', t', s3)
            \<and> disableBarcodeDetector s3
            \<and> decodeDetector (scanImage (Suc (Suc n)) w CapabilityRetry inp) (w (calls s)) opts cv s1
                = Some (race (deadline opts) (Some (r', td + t')), s3))
       \<and> (\<exists>r t s'. scanImage (Suc (Suc (Suc n))) w site inp opts s = Some (r, t, s')
            \<and> disableBarcodeDetector s')
       \<and> (\<forall>wn s'. disableBarcodeDetector s' \<longrightarrow> createQrEngine wn s' = createWorker wn s')
       \<and> (\<forall>f inp' opts' s' e img' t1 s1'.
            disableBarcodeDetector s' \<longrightarrow> qrEngine opts' = None \<longrightarrow>
            acquire f inp' opts' s' = ((Inr (e, img'), t1), s1') \<longrightarrow> (\<exists>k'. e = Worker k'))
       \<and> (\<forall>m w' site' inp' opts' s' r t s''.
            disableBarcodeDetector s' \<longrightarrow> scanImage m w' site' inp' opts' s' = Some (r, t, s'')
            \<longrightarrow> disableBarcodeDetector s'')"
proof -
  let ?retry = "scanImage (Suc (Suc n)) w CapabilityRetry inp"
  let ?o = "capabilityRetryOptions opts cv"
  have flag2: "disableBarcodeDetector s2" by (simp add: s2)
  then have "no_detector ?o s2" by (rule no_detector_capabilityRetry)
  from scanImage_total_2a [OF this, of n w CapabilityRetry inp]
  obtain y where "?retry ?o s2 = Some y" ..
  moreover obtain r' t' s3 where "y = (r', t', s3)" by (cases y)
  ultimately have rr: "?retry ?o s2 = Some (r', t', s3)" by simp
  from scanImage_keeps_flag [OF rr flag2] have flag3: "disableBarcodeDetector s3" .
  have capE: "capabilityError (thrown_message err)" using cap by (simp add: capabilityError_def)
  have dd: "decodeDetector ?retry (w (calls s)) opts cv s1
              = Some (race (deadline opts) (Some (r', td + t')), s3)"
    using det capE rr time by (simp add: decodeDetector_def Let_def s2)
  obtain ro to where race: "race (deadline opts) (Some (r', td + t')) = (ro, to)"
    by (cases "race (deadline opts) (Some (r', td + t'))")
  have tb: "tryBody ?retry (w (calls s)) inp opts (enter site opts s)
              = Some (ro, t0 + to, s3, Some (BarcodeDetector k), Some cv)"
    using tryBody_detector [OF acq, of ?retry] dd race by (simp add: cv)
  from scanImage_returns [of n w site inp opts s] obtain r t s' where
    run: "scanImage (Suc (Suc (Suc n))) w site inp opts s = Some (r, t, s')" by blast
  from scanImage_flag_after_try [OF tb run flag3] have flag': "disableBarcodeDetector s'" .
  have sel: "\<forall>wn s'. disableBarcodeDetector s' \<longrightarrow> createQrEngine wn s' = createWorker wn s'"
    by (simp add: createQrEngine_disabled)
  have later: "\<forall>f inp' opts' s' e img' t1 s1'.
            disableBarcodeDetector s' \<longrightarrow> qrEngine opts' = None \<longrightarrow>
            acquire f inp' opts' s' = ((Inr (e, img'), t1), s1') \<longrightarrow> (\<exists>k'. e = Worker k')"
  proof (intro allI impI)
    fix f inp' opts' and s' :: state and e img' t1 s1'
    assume "disableBarcodeDetector s'" "qrEngine opts' = None"
      and a: "acquire f inp' opts' s' = ((Inr (e, img'), t1), s1')"
    then have "no_detector opts' s'" by (simp add: no_detector_def)
    from acquire_no_detector [OF this a] show "\<exists>k'. e = Worker k'" .
  qed
  have keep: "\<forall>m w' site' inp' opts' s' r t s''.
            disableBarcodeDetector s' \<longrightarrow> scanImage m w' site' inp' opts' s' = Some (r, t, s'')
            \<longrightarrow> disableBarcodeDetector s''"
    using scanImage_keeps_flag by blast
  have "qrEngine ?o = None" by (simp add: capabilityRetryOptions_def)
  with rr flag3 dd run flag' sel later keep show ?thesis by blast
qed

theorem capability_retry_witness:
  "\<exists>r t s'. scanImage (Suc (Suc (Suc 0)))
       (always (native_frame
          (DetectRejects 4 (JsError ''NotSupportedError'' ''Barcode detection service unavailable.''))
          [(7, MessageEvent 1 (Some ''HELLO''))]))
       Caller (Drawable example_image) no_options initial_state = Some (r, t, s')
     \<and> disableBarcodeDetector s'"
proof -
  let ?err = "JsError ''NotSupportedError'' ''Barcode detection service unavailable.''"
  let ?f = "native_frame (DetectRejects 4 ?err) [(7, MessageEvent 1 (Some ''HELLO''))]"
  let ?s1 = "snd (acquire ?f (Drawable example_image) no_options (enter Caller no_options initial_state))"
  have acq: "acquire (always ?f (calls initial_state)) (Drawable example_image) no_options
               (enter Caller no_options initial_state)
             = ((Inr (BarcodeDetector 0, example_image), 5), ?s1)"
    by (simp add: example_defs model_defs)
  have det: "detect (always ?f (calls initial_state)) = DetectRejects 4 ?err"
    by (simp add: example_defs)
  have time: "4 < deadline no_options"
    by (simp add: example_defs model_defs)
  have cap: "contains ''not implemented'' (thrown_message ?err)
             \<or> contains ''service unavailable'' (thrown_message ?err)"
    by (simp add: thrown_message_def)
  from capability_retry [where w = "always ?f" and s = initial_state and n = 0,
      OF acq det time cap refl refl]
  show ?thesis by blast
qed

text \<open>
  Claim C4 as stated fails in three ways. A message in another case, \<open>Not Implemented\<close>,
  does not match: the flag stays clear, no retry is made and the call rejects. A
  matching rejection that comes after the deadline finds the race decided: the call has
  rejected with the timeout, without flag and without retry. And with the flag set a
  call that is given a native detector does not select an engine: it runs on the
  detector it was given.
\<close>

theorem capability_counterexample:
  "scanImage (Suc (Suc (Suc 0)))
     (always (native_frame (DetectRejects 4 (JsError ''NotSupportedError'' ''Not Implemented'')) []))
     Caller (Drawable example_image) no_options initial_state
   = Some (Inl (JsString ''Scanner error: Not Implemented''), 9,
       \<lparr>disableBarcodeDetector = False, workerMessageId = 0, calls = 1, nextEngine = 1,
        trace = [Invoke Caller no_options, Created (BarcodeDetector 0), TimerArmed 10000]\<rparr>)
   \<and> scanImage (Suc (Suc (Suc 0)))
     (always (native_frame (DetectRejects 20000 (JsError ''NotSupportedError'' ''not implemented'')) []))
     Caller (Drawable example_image) no_options initial_state
   = Some (Inl (JsString ''Scanner error: timeout''), 10005,
       \<lparr>disableBarcodeDetector = False, workerMessageId = 0, calls = 1, nextEngine = 1,
        trace = [Invoke Caller no_options, Created (BarcodeDetector 0), TimerArmed 10000]\<rparr>)
   \<and> scanImage (Suc (Suc (Suc 0)))
     (always (native_frame (DetectResolves 4 [''HELLO'']) []))
     Caller (Drawable example_image) (no_options\<lparr>qrEngine := Some (BarcodeDetector 7)\<rparr>)
     (initial_state\<lparr>disableBarcodeDetector := True\<rparr>)
   = Some (Inr \<lparr>data = ''HELLO''\<rparr>, 7,
       \<lparr>disableBarcodeDetector = True, workerMessageId = 0, calls = 1, nextEngine = 0,
        trace = [Invoke Caller (no_options\<lparr>qrEngine := Some (BarcodeDetector 7)\<rparr>),
                 TimerArmed 10000]\<rparr>)"
  by (simp add: run_defs example_defs model_defs)

section \<open>The outcome of a decode step that fails\<close>

lemma rejects_or_falls_backI:
  assumes tb: "tryBody (scanImage n w CapabilityRetry inp) (w (calls s)) inp opts (enter site opts s)
                 = Some (Inl err, t1, s2, e, cv)"
  shows "rejects_or_falls_back n w site inp opts s err"
proof (cases "fallback opts")
  case True
  then have "scanRegion opts \<noteq> None" "alsoTryWithoutScanRegion opts" by (simp_all add: fallback_def)
  from scanImage_falls_back [OF tb this] True tb show ?thesis
    by (simp add: rejects_or_falls_back_def)
next
  case False
  then have "scanRegion opts = None \<or> \<not> alsoTryWithoutScanRegion opts" by (auto simp: fallback_def)
  from scanImage_rejects [OF tb this] False tb show ?thesis
    by (simp add: rejects_or_falls_back_def)
qed

lemma rejects_or_falls_backD:
  assumes "rejects_or_falls_back n w site inp opts s err" and "\<not> fallback opts"
  shows "\<exists>t s'. scanImage (Suc n) w site inp opts s = Some (Inl err, t, s')"
  using assms by (auto simp: rejects_or_falls_back_def split: option.splits)

lemma worker_rejects_or_falls_back:
  assumes acq: "acquire (w (calls s)) inp opts (enter site opts s) = ((Inr (Worker k, img), t0), s1)"
    and out: "\<And>cv. fst (decodeWorker (w (calls s)) opts k cv s1) = Some (Inl err)"
  shows "rejects_or_falls_back n w site inp opts s err"
proof -
  let ?cv = "drawToCanvas img (scanRegion opts) (canvas_opt opts) (disallowCanvasResizing opts)"
  obtain r' t' s2 where dw: "decodeWorker (w (calls s)) opts k ?cv s1 = (Some r', t', s2)"
    by (rule decodeWorker_cases)
  with out [of ?cv] have "r' = Inl err" by simp
  with tryBody_worker [OF acq dw] have
    "tryBody (scanImage n w CapabilityRetry inp) (w (calls s)) inp opts (enter site opts s)
       = Some (Inl err, t0 + t', s2, Some (Worker k), Some ?cv)" by simp
  then show ?thesis by (rule rejects_or_falls_backI)
qed

lemma detector_late_rejects_or_falls_back:
  assumes acq: "acquire (w (calls s)) inp opts (enter site opts s)
                  = ((Inr (BarcodeDetector k, img), t0), s1)"
    and late: "detect_late (deadline opts) (detect (w (calls s)))"
  shows "rejects_or_falls_back n w site inp opts s (JsString ''Scanner error: timeout'')"
proof -
  let ?retry = "scanImage n w CapabilityRetry inp"
  let ?cv = "drawToCanvas img (scanRegion opts) (canvas_opt opts) (disallowCanvasResizing opts)"
  let ?s2 = "s1\<lparr>trace := trace s1 @ [TimerArmed (deadline opts)]\<rparr>"
  have "decodeDetector ?retry (w (calls s)) opts ?cv s1
          = Some ((Inl (JsString ''Scanner error: timeout''), deadline opts), ?s2)"
    using late
    by (auto simp: decodeDetector_def detect_late_def race_def Let_def split: detect_outcome.splits)
  with tryBody_detector [OF acq, of ?retry] have
    "tryBody ?retry (w (calls s)) inp opts (enter site opts s)
       = Some (Inl (JsString ''Scanner error: timeout''), t0 + deadline opts, ?s2,
           Some (BarcodeDetector k), Some ?cv)"
    by simp
  then show ?thesis by (rule rejects_or_falls_backI)
qed

text \<open>
  Claim C6, as amended. The deadline of a call is its \<^verbatim>\<open>timeout\<close> option when that is
  given and not 0, and 10000 ms otherwise. On the worker path, when every event that
  arrives before the deadline is a message for another id, and on the native-detector
  path, when \<^verbatim>\<open>detect\<close> gives nothing before the deadline, the \<^verbatim>\<open>try\<close> block rejects
  with \<open>Scanner error: timeout\<close>. On the worker path, when the first event that is not
  a message for another id is an error event that carries a message, before the
  deadline, the \<^verbatim>\<open>try\<close> block rejects with \<open>Scanner error: \<close> followed by that message.
  In each case the call rejects with the same string, unless it has a region and the
  fallback flag: then the region-less retry decides what the call settles with. In
  either case the call returns.
\<close>

theorem decode_deadline:
  "(timeout opts = None \<or> timeout opts = Some 0 \<longrightarrow> deadline opts = 10000)
   \<and> (timeout opts = Some T \<longrightarrow> T \<noteq> 0 \<longrightarrow> deadline opts = T)
   \<and> (\<exists>r t s'. scanImage (Suc (Suc (Suc n))) w site inp opts s = Some (r, t, s'))
   \<and> (acquire (w (calls s)) inp opts (enter site opts s) = ((Inr (Worker k, img), t0), s1) \<longrightarrow>
        list_all (other_id (decode_id opts s1) (deadline opts))
          (takeWhile (\<lambda>tev. fst tev < deadline opts) (channel (w (calls s)))) \<longrightarrow>
        rejects_or_falls_back (Suc (Suc n)) w site inp opts s (JsString ''Scanner error: timeout''))
   \<and> (acquire (w (calls s)) inp opts (enter site opts s) = ((Inr (BarcodeDetector k, img), t0), s1) \<longrightarrow>
        detect_late (deadline opts) (detect (w (calls s))) \<longrightarrow>
        rejects_or_falls_back (Suc (Suc n)) w site inp opts s (JsString ''Scanner error: timeout''))
   \<and> (acquire (w (calls s)) inp opts (enter site opts s) = ((Inr (Worker k, img), t0), s1) \<longrightarrow>
        channel (w (calls s)) = pre @ (te, ErrorEvent (Some m)) # rest \<longrightarrow>
        list_all (other_id (decode_id opts s1) (deadline opts)) pre \<longrightarrow>
        te < deadline opts \<longrightarrow> m \<noteq> [] \<longrightarrow>
        rejects_or_falls_back (Suc (Suc n)) w site inp opts s (JsString (''Scanner error: '' @ m)))"
proof -
  have 1: "timeout opts = None \<or> timeout opts = Some 0 \<longrightarrow> deadline opts = 10000"
    and 2: "timeout opts = Some T \<longrightarrow> T \<noteq> 0 \<longrightarrow> deadline opts = T"
    by (auto simp: deadline_def)
  have 3: "\<exists>r t s'. scanImage (Suc (Suc (Suc n))) w site inp opts s = Some (r, t, s')"
    by (rule scanImage_returns)
  have 4: "rejects_or_falls_back (Suc (Suc n)) w site inp opts s (JsString ''Scanner error: timeout'')"
    if acq: "acquire (w (calls s)) inp opts (enter site opts s) = ((Inr (Worker k, img), t0), s1)"
      and quiet: "list_all (other_id (decode_id opts s1) (deadline opts))
          (takeWhile (\<lambda>tev. fst tev < deadline opts) (channel (w (calls s))))"
    by (rule worker_rejects_or_falls_back [where w = w and s = s, OF acq decodeWorker_timeout [OF quiet]])
  have 5: "rejects_or_falls_back (Suc (Suc n)) w site inp opts s (JsString ''Scanner error: timeout'')"
    if "acquire (w (calls s)) inp opts (enter site opts s) = ((Inr (BarcodeDetector k, img), t0), s1)"
      and "detect_late (deadline opts) (detect (w (calls s)))"
    using that by (rule detector_late_rejects_or_falls_back)
  have 6: "rejects_or_falls_back (Suc (Suc n)) w site inp opts s (JsString (''Scanner error: '' @ m))"
    if acq: "acquire (w (calls s)) inp opts (enter site opts s) = ((Inr (Worker k, img), t0), s1)"
      and ch: "channel (w (calls s)) = pre @ (te, ErrorEvent (Some m)) # rest"
      and pre: "list_all (other_id (decode_id opts s1) (deadline opts)) pre"
      and te: "te < deadline opts" and m: "m \<noteq> []"
    by (rule worker_rejects_or_falls_back [where w = w and s = s,
          OF acq decodeWorker_error [OF ch pre te m]])
  from 1 2 3 4 5 6 show ?thesis by blast
qed


theorem decode_deadline_witness:
  "deadline (no_options\<lparr>timeout := Some 5000\<rparr>) = 5000
   \<and> (\<exists>t s'. scanImage (Suc (Suc (Suc 0))) (always (worker_frame [(6000, MessageEvent 1 (Some ''LATE''))]))
         Caller (Drawable example_image) (no_options\<lparr>timeout := Some 5000\<rparr>) initial_state
       = Some (Inl (JsString ''Scanner error: timeout''), t, s'))
   \<and> (\<exists>t s'. scanImage (Suc (Suc (Suc 0))) (always (native_frame DetectNever []))
         Caller (Drawable example_image) (no_options\<lparr>timeout := Some 5000\<rparr>) initial_state
       = Some (Inl (JsString ''Scanner error: timeout''), t, s'))
   \<and> (\<exists>t s'. scanImage (Suc (Suc (Suc 0))) (always (worker_frame [(3, ErrorEvent (Some ''boom''))]))
         Caller (Drawable example_image) (no_options\<lparr>timeout := Some 5000\<rparr>) initial_state
       = Some (Inl (JsString ''Scanner error: boom''), t, s'))"
proof -
  let ?opts = "no_options\<lparr>timeout := Some 5000\<rparr>"
  let ?s0 = "enter Caller ?opts initial_state"
  let ?fw = "worker_frame [(6000, MessageEvent 1 (Some ''LATE''))]"
  let ?fd = "native_frame DetectNever []"
  let ?fe = "worker_frame [(3, ErrorEvent (Some ''boom''))]"
  have nf: "\<not> fallback ?opts" by (simp add: fallback_def example_defs)
  have t: "timeout ?opts = Some 5000" "(5000::nat) \<noteq> 0" by simp_all
  have d: "deadline ?opts = 5000"
    using decode_deadline [where opts = ?opts and T = 5000] t by blast
  have acqw: "acquire (always ?fw (calls initial_state)) (Drawable example_image) ?opts ?s0
                = ((Inr (Worker 0, example_image), 5), snd (acquire ?fw (Drawable example_image) ?opts ?s0))"
    by (simp add: example_defs model_defs)
  have quiet: "list_all (other_id (decode_id ?opts (snd (acquire ?fw (Drawable example_image) ?opts ?s0)))
                 (deadline ?opts))
          (takeWhile (\<lambda>tev. fst tev < deadline ?opts) (channel (always ?fw (calls initial_state))))"
    by (simp add: example_defs model_defs)
  have acqd: "acquire (always ?fd (calls initial_state)) (Drawable example_image) ?opts ?s0
                = ((Inr (BarcodeDetector 0, example_image), 5),
                   snd (acquire ?fd (Drawable example_image) ?opts ?s0))"
    by (simp add: example_defs model_defs)
  have late: "detect_late (deadline ?opts) (detect (always ?fd (calls initial_state)))"
    by (simp add: detect_late_def example_defs)
  have acqe: "acquire (always ?fe (calls initial_state)) (Drawable example_image) ?opts ?s0
                = ((Inr (Worker 0, example_image), 5), snd (acquire ?fe (Drawable example_image) ?opts ?s0))"
    by (simp add: example_defs model_defs)
  have ch: "channel (always ?fe (calls initial_state)) = [] @ (3, ErrorEvent (Some ''boom'')) # []"
    by (simp add: example_defs)
  have te: "3 < deadline ?opts" by (simp add: d)
  have "rejects_or_falls_back (Suc (Suc 0)) (always ?fw) Caller (Drawable example_image) ?opts
          initial_state (JsString ''Scanner error: timeout'')"
    using decode_deadline [where w = "always ?fw" and s = initial_state and opts = ?opts and n = 0
        and site = Caller and inp = "Drawable example_image"] acqw quiet
    by blast
  from rejects_or_falls_backD [OF this nf]
  have A: "\<exists>t s'. scanImage (Suc (Suc (Suc 0))) (always ?fw) Caller (Drawable example_image) ?opts
      initial_state = Some (Inl (JsString ''Scanner error: timeout''), t, s')" .
  have "rejects_or_falls_back (Suc (Suc 0)) (always ?fd) Caller (Drawable example_image) ?opts
          initial_state (JsString ''Scanner error: timeout'')"
    using decode_deadline [where w = "always ?fd" and s = initial_state and opts = ?opts and n = 0
        and site = Caller and inp = "Drawable example_image"] acqd late
    by blast
  from rejects_or_falls_backD [OF this nf]
  have B: "\<exists>t s'. scanImage (Suc (Suc (Suc 0))) (always ?fd) Caller (Drawable example_image) ?opts
         initial_state = Some (Inl (JsString ''Scanner error: timeout''), t, s')" .
  have "rejects_or_falls_back (Suc (Suc 0)) (always ?fe) Caller (Drawable example_image) ?opts
          initial_state (JsString (''Scanner error: '' @ ''boom''))"
    using decode_deadline [where w = "always ?fe" and s = initial_state and opts = ?opts and n = 0
        and site = Caller and inp = "Drawable example_image" and pre = "[]" and te = 3
        and m = "''boom''" and rest = "[]"] acqe ch te
    by simp
  from rejects_or_falls_backD [OF this nf]
  have C: "\<exists>t s'. scanImage (Suc (Suc (Suc 0))) (always ?fe) Caller (Drawable example_image) ?opts
      initial_state = Some (Inl (JsString ''Scanner error: boom''), t, s')" by simp
  from d A B C show ?thesis by blast
qed

text \<open>
  Claim C6 as stated fails in three ways. With \<^verbatim>\<open>timeout: 0\<close> the timer is armed with
  10000 ms, and a response that arrives after 5000 ms, long after a deadline of 0 ms,
  resolves the call. With a region and the fallback flag a first attempt that times out
  does not make the call reject: the retry without region is answered, and the call
  resolves. And an error event whose message is empty is not reported as
  \<open>Unknown Error\<close> but by the text the event object prints as.
\<close>

theorem deadline_counterexample:
  "scanImage (Suc 0) (always (worker_frame [(5000, MessageEvent 1 (Some ''HELLO''))]))
     Caller (Drawable example_image) (no_options\<lparr>timeout := Some 0\<rparr>) initial_state
   = Some (Inr \<lparr>data = ''HELLO''\<rparr>, 5005,
       \<lparr>disableBarcodeDetector = False, workerMessageId = 3, calls = 1, nextEngine = 1,
        trace = [Invoke Caller (no_options\<lparr>timeout := Some 0\<rparr>), Created (Worker 0),
          Posted 0 \<lparr>msg_id = 0, msg_type = ''inversionMode'', msg_data = StrData ''both''\<rparr>,
          TimerArmed 10000,
          Posted 0 \<lparr>msg_id = 1, msg_type = ''decode'',
            msg_data = ImageData \<lparr>canvas_width = 10, canvas_height = 20,
              content = [DrawImage example_image 0 0 10 20 0 0 10 20]\<rparr>\<rparr>,
          Posted 0 \<lparr>msg_id = 2, msg_type = ''close'', msg_data = NoData\<rparr>]\<rparr>)
   \<and> map_option fst
     (tryBody
        (scanImage (Suc (Suc 0))
           (first_then (worker_frame []) (worker_frame [(9, MessageEvent 2 (Some ''HELLO''))]))
           CapabilityRetry (Drawable example_image))
        (worker_frame []) (Drawable example_image)
        (no_options\<lparr>scanRegion := Some example_region, alsoTryWithoutScanRegion := True\<rparr>)
        (enter Caller
           (no_options\<lparr>scanRegion := Some example_region, alsoTryWithoutScanRegion := True\<rparr>)
           initial_state))
   = Some (Inl (JsString ''Scanner error: timeout''))
   \<and> map_option fst
     (scanImage (Suc (Suc (Suc 0)))
        (first_then (worker_frame []) (worker_frame [(9, MessageEvent 2 (Some ''HELLO''))]))
        Caller (Drawable example_image)
        (no_options\<lparr>scanRegion := Some example_region, alsoTryWithoutScanRegion := True\<rparr>)
        initial_state)
   = Some (Inr \<lparr>data = ''HELLO''\<rparr>)
   \<and> map_option fst
     (scanImage (Suc (Suc (Suc 0))) (always (worker_frame [(3, ErrorEvent (Some []))]))
        Caller (Drawable example_image) no_options initial_state)
   = Some (Inl (JsString ''Scanner error: [object ErrorEvent]''))"
  by (simp add: run_defs example_defs model_defs)

section \<open>The worker response\<close>

text \<open>
  Claim C2, as amended. On the worker path, let the first event that is not a message
  for another id be a message with the id of the \<^verbatim>\<open>decode\<close> request, arriving before
  the deadline. Then the awaited request is settled by the data field of that message:
  resolved with the data when there is one, rejected with \<open>No QR code found\<close> when it is
  null. With data the call resolves with it. With null the call rejects with
  \<open>No QR code found\<close>, unless it has a region and the fallback flag: then the \<^verbatim>\<open>try\<close>
  block rejects with \<open>No QR code found\<close>, the region-less retry returns, and what it
  settles with is what the call settles with.
\<close>

theorem worker_response_decides:
  assumes acq: "acquire (w (calls s)) inp opts (enter site opts s) = ((Inr (Worker k, img), t0), s1)"
    and ch: "channel (w (calls s)) = pre @ (t, MessageEvent (decode_id opts s1) d) # rest"
    and pre: "list_all (other_id (decode_id opts s1) (deadline opts)) pre"
    and t: "t < deadline opts"
  shows "fst (decodeWorker (w (calls s)) opts k cv s1)
           = Some (case d of Some v \<Rightarrow> Inr \<lparr>data = v\<rparr> | None \<Rightarrow> Inl (JsString ''No QR code found''))
       \<and> (\<forall>v. d = Some v \<longrightarrow>
            (\<exists>t' s'. scanImage (Suc n) w site inp opts s = Some (Inr \<lparr>data = v\<rparr>, t', s')))
       \<and> (d = None \<longrightarrow> (scanRegion opts = None \<or> \<not> alsoTryWithoutScanRegion opts) \<longrightarrow>
            (\<exists>t' s'. scanImage (Suc n) w site inp opts s
                        = Some (Inl (JsString ''No QR code found''), t', s')))
       \<and> (d = None \<longrightarrow> scanRegion opts \<noteq> None \<longrightarrow> alsoTryWithoutScanRegion opts \<longrightarrow>
            (\<exists>t1 s2 cv' r' t' s3.
               tryBody (scanImage (Suc (Suc n)) w CapabilityRetry inp) (w (calls s)) inp opts
                   (enter site opts s)
                 = Some (Inl (JsString ''No QR code found''), t1, s2, Some (Worker k), Some cv')
               \<and> scanImage (Suc (Suc n)) w RegionlessRetry inp
                     (regionlessRetryOptions opts (Some (Worker k)) (Some cv')) s2
                 = Some (r', t', s3)
               \<and> scanImage (Suc (Suc (Suc n))) w site inp opts s
                 = Some (r', t1 + t', cleanup opts (Some (Worker k)) s3)))"
proof -
  let ?T = "deadline opts" and ?i = "decode_id opts s1"
  let ?r = "case d of Some v \<Rightarrow> Inr \<lparr>data = v\<rparr> | None \<Rightarrow> Inl (JsString ''No QR code found'')"
  have p0: "settled (new_request ?i ?T) = None" "expectedResponseId (new_request ?i ?T) = ?i"
    "listening (new_request ?i ?T)"
    by (simp_all add: new_request_def)
  have "run_channel ?T (channel (w (calls s))) (new_request ?i ?T)
          = run_channel ?T ((t, MessageEvent ?i d) # rest) (new_request ?i ?T)"
    unfolding ch using pre p0 by (intro run_channel_other_id) simp_all
  moreover have "dispatch (MessageEvent ?i d) (new_request ?i ?T) = onMessage ?i d (new_request ?i ?T)"
    using p0 by (simp add: dispatch_def)
  moreover have "settled (onMessage ?i d (new_request ?i ?T)) = Some ?r"
    using onMessage_match [of "new_request ?i ?T" d] p0 by simp
  ultimately have "settled (fst (run_channel ?T (channel (w (calls s))) (new_request ?i ?T))) = Some ?r"
    using t by (simp add: Let_def)
  then have out: "\<And>cv. fst (decodeWorker (w (calls s)) opts k cv s1) = Some ?r"
    by (simp only: decodeWorker_outcome)
  let ?cv = "drawToCanvas img (scanRegion opts) (canvas_opt opts) (disallowCanvasResizing opts)"
  obtain r' t' s2 where dw: "decodeWorker (w (calls s)) opts k ?cv s1 = (Some r', t', s2)"
    by (rule decodeWorker_cases)
  with out [of ?cv] have r': "r' = ?r" by simp
  have tb: "tryBody (scanImage n w CapabilityRetry inp) (w (calls s)) inp opts (enter site opts s)
            = Some (?r, t0 + t', s2, Some (Worker k), Some ?cv)"
    using tryBody_worker [OF acq dw] r' by simp
  have res: "\<And>v. d = Some v \<Longrightarrow>
      \<exists>t' s'. scanImage (Suc n) w site inp opts s = Some (Inr \<lparr>data = v\<rparr>, t', s')"
    using scanImage_resolves [of n w inp s opts site] tb by (cases d) (simp_all del: scanImage.simps)
  have rej: "d = None \<Longrightarrow> scanRegion opts = None \<or> \<not> alsoTryWithoutScanRegion opts \<Longrightarrow>
      \<exists>t' s'. scanImage (Suc n) w site inp opts s = Some (Inl (JsString ''No QR code found''), t', s')"
    using scanImage_rejects [of n w inp s opts site] tb by (cases d) (simp_all del: scanImage.simps)
  have fb: "d = None \<Longrightarrow> scanRegion opts \<noteq> None \<Longrightarrow> alsoTryWithoutScanRegion opts \<Longrightarrow>
      \<exists>t1 s2 cv' r' t' s3.
         tryBody (scanImage (Suc (Suc n)) w CapabilityRetry inp) (w (calls s)) inp opts
             (enter site opts s)
           = Some (Inl (JsString ''No QR code found''), t1, s2, Some (Worker k), Some cv')
         \<and> scanImage (Suc (Suc n)) w RegionlessRetry inp
               (regionlessRetryOptions opts (Some (Worker k)) (Some cv')) s2
           = Some (r', t', s3)
         \<and> scanImage (Suc (Suc (Suc n))) w site inp opts s
           = Some (r', t1 + t', cleanup opts (Some (Worker k)) s3)"
  proof -
    assume d: "d = None" and r: "scanRegion opts \<noteq> None" and a: "alsoTryWithoutScanRegion opts"
    let ?o = "regionlessRetryOptions opts (Some (Worker k)) (Some ?cv)"
    have tb': "tryBody (scanImage (Suc (Suc n)) w CapabilityRetry inp) (w (calls s)) inp opts
        (enter site opts s) = Some (Inl (JsString ''No QR code found''), t0 + t', s2, Some (Worker k), Some ?cv)"
      using tryBody_worker [OF acq dw] r' d by simp
    have "\<not> fallback ?o" by simp
    from scanImage_total_2b [OF this, of n w RegionlessRetry inp s2]
    obtain y where "scanImage (Suc (Suc n)) w RegionlessRetry inp ?o s2 = Some y" ..
    moreover obtain r'' t'' s3 where "y = (r'', t'', s3)" by (cases y)
    ultimately have rr: "scanImage (Suc (Suc n)) w RegionlessRetry inp ?o s2 = Some (r'', t'', s3)"
      by simp
    have "scanImage (Suc (Suc (Suc n))) w site inp opts s
            = Some (r'', t0 + t' + t'', cleanup opts (Some (Worker k)) s3)"
      using scanImage_falls_back [OF tb' r a] rr by simp
    with tb' rr show ?thesis by blast
  qed
  from out res rej fb show ?thesis by blast
qed

theorem worker_response_decides_witness:
  "\<exists>t' s'. scanImage (Suc 0)
      (\<lambda>_. worker_frame [(2, MessageEvent 0 (Some ''STALE'')), (7, MessageEvent 1 (Some ''HELLO''))])
      Caller (Drawable example_image) no_options initial_state
    = Some (Inr \<lparr>data = ''HELLO''\<rparr>, t', s')"
proof -
  let ?f = "worker_frame [(2, MessageEvent 0 (Some ''STALE'')), (7, MessageEvent 1 (Some ''HELLO''))]"
  let ?s1 = "snd (acquire ?f (Drawable example_image) no_options (enter Caller no_options initial_state))"
  have acq: "acquire ((\<lambda>_. ?f) (calls initial_state)) (Drawable example_image) no_options
               (enter Caller no_options initial_state)
             = ((Inr (Worker 0, example_image), 5), ?s1)"
    by (simp add: example_defs model_defs)
  have i: "decode_id no_options ?s1 = 1"
    by (simp add: example_defs model_defs)
  have ch: "channel ((\<lambda>_. ?f) (calls initial_state))
              = [(2, MessageEvent 0 (Some ''STALE''))]
                @ (7, MessageEvent (decode_id no_options ?s1) (Some ''HELLO'')) # []"
    unfolding i by (simp add: worker_frame_def)
  have pre: "list_all (other_id (decode_id no_options ?s1) (deadline no_options))
               [(2, MessageEvent 0 (Some ''STALE''))]"
    unfolding i by (simp add: example_defs model_defs)
  have t: "7 < deadline no_options"
    by (simp add: example_defs model_defs)
  from worker_response_decides [where n = 0, OF acq ch pre t] show ?thesis
    by simp
qed

text \<open>
  Claim C2 as stated fails where the caller asked for the region-less fallback. Below
  the response to the \<^verbatim>\<open>decode\<close> request of the first attempt has the right id and null
  data, and the \<^verbatim>\<open>try\<close> block rejects with \<open>No QR code found\<close>; the call does not: the
  retry without region is answered with a code, and the call resolves with it.
\<close>

theorem null_response_fallback_counterexample:
  "map_option fst
     (tryBody
        (scanImage (Suc (Suc 0))
           (first_then (worker_frame [(7, MessageEvent 1 None)])
              (worker_frame [(9, MessageEvent 2 (Some ''HELLO''))]))
           CapabilityRetry (Drawable example_image))
        (worker_frame [(7, MessageEvent 1 None)]) (Drawable example_image)
        (no_options\<lparr>scanRegion := Some example_region, alsoTryWithoutScanRegion := True\<rparr>)
        (enter Caller
           (no_options\<lparr>scanRegion := Some example_region, alsoTryWithoutScanRegion := True\<rparr>)
           initial_state))
   = Some (Inl (JsString ''No QR code found''))
   \<and> map_option fst
     (scanImage (Suc (Suc (Suc 0)))
        (first_then (worker_frame [(7, MessageEvent 1 None)])
           (worker_frame [(9, MessageEvent 2 (Some ''HELLO''))]))
        Caller (Drawable example_image)
        (no_options\<lparr>scanRegion := Some example_region, alsoTryWithoutScanRegion := True\<rparr>)
        initial_state)
   = Some (Inr \<lparr>data = ''HELLO''\<rparr>)"
  by (simp add: run_defs example_defs model_defs)

end
